theory Spec2Isabelle
  imports Main "HOL-Library.Word"
begin

section \<open>The memory arenas of dynet/aligned-mem-pool.h\<close>

text \<open>
  The header declares the segment classes \<open>BaseMemoryPool\<close>, \<open>DynamicCPUMemoryPool\<close>
  and \<open>InternalMemoryPool\<close>, and the growable pool \<open>AlignedMemoryPool\<close>. Methods with
  a body in the header are embedded from that body. Methods that the header only declares
  are modelled from the specification; each such definition says so.

  Mutation is explicit state passing: a method takes the object and the state of the
  memory backend (\<open>world\<close>) and returns both; a method that can fail returns the error
  or the result next to them. \<open>size_t\<close> values are natural numbers: the methods
  embedded from the header assign and compare them and never do arithmetic, and the
  specification's sizes have no bound.
\<close>

subsection \<open>The raw allocator\<close>

type_synonym addr = nat
type_synonym size_t = nat
type_synonym byte = "8 word"

datatype mem_backend = Host | Device

text \<open>
  Modelled from the spec: the class \<open>MemAllocator\<close> of dynet/mem.h, which is not among
  the sources. An allocator object has an identity, a memory backend and the alignment
  granularity of that backend.
\<close>

record MemAllocator =
  oid :: nat
  backend :: mem_backend
  align :: nat

text \<open>One call that reached an allocator object, as the backend saw it.\<close>

datatype call =
    Malloc_call MemAllocator size_t "addr option"
  | Free_call MemAllocator addr
  | Zero_call MemAllocator addr size_t

text \<open>
  The state of the memory backends: the contents of every byte, the calls received so
  far (oldest first), the blocks the backend will hand out next (it is exhausted when
  none is left), the identity of the next object created by \<open>new\<close>, and the alignment
  granularity of host memory.
\<close>

record world =
  bytes :: "addr \<Rightarrow> byte"
  calls :: "call list"
  avail :: "addr list"
  next_oid :: nat
  host_align :: nat

datatype error = AllocationFailure | OutOfPoolSpace

text \<open>
  Modelled from the spec: \<open>MemAllocator::round_up_align\<close>, "rounded to the alignment
  granularity": the least multiple of the granularity that is at least \<open>n\<close>.
\<close>

definition round_up_align :: "MemAllocator \<Rightarrow> size_t \<Rightarrow> size_t" where
  "round_up_align al n =
     (if align al = 0 then n else ((n + align al - 1) div align al) * align al)"

text \<open>
  Modelled from the spec: \<open>MemAllocator::malloc\<close>, "allocate(n) returns a pointer to n
  bytes; fails when the backend is exhausted". \<open>None\<close> is the null pointer.
\<close>

definition MemAllocator_malloc :: "MemAllocator \<Rightarrow> size_t \<Rightarrow> world \<Rightarrow> addr option \<times> world" where
  "MemAllocator_malloc al n w =
     (case avail w of
        [] \<Rightarrow> (None, w\<lparr>calls := calls w @ [Malloc_call al n None]\<rparr>)
      | p # ps \<Rightarrow> (Some p, w\<lparr>calls := calls w @ [Malloc_call al n (Some p)], avail := ps\<rparr>))"

text \<open>Modelled from the spec: \<open>MemAllocator::free\<close>, "free(p) releases a pointer".\<close>

definition MemAllocator_free :: "MemAllocator \<Rightarrow> addr \<Rightarrow> world \<Rightarrow> world" where
  "MemAllocator_free al p w = w\<lparr>calls := calls w @ [Free_call al p]\<rparr>"

text \<open>
  Modelled from the spec: \<open>MemAllocator::zero\<close>, "zero(p,n) overwrites n bytes with
  zero".
\<close>

definition MemAllocator_zero :: "MemAllocator \<Rightarrow> addr \<Rightarrow> size_t \<Rightarrow> world \<Rightarrow> world" where
  "MemAllocator_zero al p n w =
     w\<lparr>bytes := (\<lambda>x. if p \<le> x \<and> x < p + n then 0 else bytes w x),
       calls := calls w @ [Zero_call al p n]\<rparr>"

text \<open>
  Modelled from the spec: \<open>new CPUAllocator()\<close> (dynet/mem.h), "its own private
  allocator instance dedicated to host memory": a new object on the host backend.
\<close>

definition new_CPUAllocator :: "world \<Rightarrow> MemAllocator \<times> world" where
  "new_CPUAllocator w =
     (\<lparr>oid = next_oid w, backend = Host, align = host_align w\<rparr>,
      w\<lparr>next_oid := Suc (next_oid w)\<rparr>)"

subsection \<open>InternalMemoryPool: the fixed segment\<close>

text \<open>
  The fields of a constructed \<open>InternalMemoryPool\<close>. \<open>base_used\<close> is the member
  \<open>BaseMemoryPool::used\<close> (line 21), hidden inside the class by its own member \<open>used\<close>
  (line 92); no constructor initialises it, and \<open>None\<close> is that indeterminate value.
  \<open>alloc\<close> is the member \<open>a\<close>.
\<close>

record InternalMemoryPool =
  base_used :: "size_t option"
  alloc :: MemAllocator
  name :: string
  capacity :: size_t
  mem :: addr
  used :: size_t

text \<open>
  Modelled from the spec: \<open>InternalMemoryPool::sys_alloc\<close> (declared at line 94),
  "acquires one contiguous buffer from its allocator", on an object whose base part
  \<open>BaseMemoryPool(name, a)\<close> has set \<open>name\<close> and \<open>a\<close>; the segment starts empty. A
  null pointer from the allocator is the fatal \<open>AllocationFailure\<close>.
\<close>

definition InternalMemoryPool_sys_alloc ::
    "string \<Rightarrow> MemAllocator \<Rightarrow> size_t \<Rightarrow> world \<Rightarrow> (error + InternalMemoryPool) \<times> world" where
  "InternalMemoryPool_sys_alloc nm al cp w =
     (case MemAllocator_malloc al cp w of
        (None, w') \<Rightarrow> (Inl AllocationFailure, w')
      | (Some p, w') \<Rightarrow>
          (Inr \<lparr>base_used = None, alloc = al, name = nm, capacity = cp, mem = p, used = 0\<rparr>, w'))"

text \<open>\<open>zero_all\<close> (lines 96-98): \<open>a->zero(mem, capacity)\<close>.\<close>

definition InternalMemoryPool_zero_all :: "InternalMemoryPool \<times> world \<Rightarrow> InternalMemoryPool \<times> world" where
  "InternalMemoryPool_zero_all st =
     (case st of (s, w) \<Rightarrow> (s, MemAllocator_zero (alloc s) (mem s) (capacity s) w))"

text \<open>The constructor (lines 71-74): \<open>sys_alloc(cap); zero_all();\<close>.\<close>

definition InternalMemoryPool_ctor ::
    "string \<Rightarrow> size_t \<Rightarrow> MemAllocator \<Rightarrow> world \<Rightarrow> (error + InternalMemoryPool) \<times> world" where
  "InternalMemoryPool_ctor nm cp al w =
     (case InternalMemoryPool_sys_alloc nm al cp w of
        (Inl e, w') \<Rightarrow> (Inl e, w')
      | (Inr s, w') \<Rightarrow> (Inr s, snd (InternalMemoryPool_zero_all (s, w'))))"

text \<open>The destructor (lines 76-78): \<open>a->free(mem)\<close>.\<close>

definition InternalMemoryPool_dtor :: "InternalMemoryPool \<times> world \<Rightarrow> world" where
  "InternalMemoryPool_dtor st = (case st of (s, w) \<Rightarrow> MemAllocator_free (alloc s) (mem s) w)"

text \<open>\<open>free\<close> (lines 82-85): \<open>used = 0\<close>, the member of line 92.\<close>

definition InternalMemoryPool_free :: "InternalMemoryPool \<times> world \<Rightarrow> InternalMemoryPool \<times> world" where
  "InternalMemoryPool_free st = (case st of (s, w) \<Rightarrow> (s\<lparr>used := 0\<rparr>, w))"

text \<open>
  \<open>zero_allocated_memory\<close> (lines 87-90): \<open>if (used == 0) return; a->zero(mem, used);\<close>.
\<close>

definition InternalMemoryPool_zero_allocated_memory ::
    "InternalMemoryPool \<times> world \<Rightarrow> InternalMemoryPool \<times> world" where
  "InternalMemoryPool_zero_allocated_memory st =
     (case st of (s, w) \<Rightarrow>
        if used s = 0 then (s, w) else (s, MemAllocator_zero (alloc s) (mem s) (used s) w))"

text \<open>
  Modelled from the spec: \<open>InternalMemoryPool::allocate\<close> (declared at line 80), "returns
  the buffer base plus the current used offset, then advances used by n (rounded to the
  alignment granularity); if used + n would exceed capacity it signals exhaustion". The
  test is on the request as given, the advance is the request rounded. The name \<open>used\<close>
  inside a member of the class is the member of line 92.
\<close>

definition InternalMemoryPool_allocate ::
    "size_t \<Rightarrow> InternalMemoryPool \<times> world \<Rightarrow> (error + addr) \<times> InternalMemoryPool \<times> world" where
  "InternalMemoryPool_allocate n st =
     (case st of (s, w) \<Rightarrow>
        if capacity s < used s + n then (Inl OutOfPoolSpace, s, w)
        else (Inr (mem s + used s), s\<lparr>used := used s + round_up_align (alloc s) n\<rparr>, w))"

text \<open>The operations a caller can invoke on a segment, and a run of them in order.\<close>

datatype op = Allocate size_t | Free | Zero_allocated_memory

fun InternalMemoryPool_step :: "op \<Rightarrow> InternalMemoryPool \<times> world \<Rightarrow> InternalMemoryPool \<times> world" where
  "InternalMemoryPool_step (Allocate n) st = snd (InternalMemoryPool_allocate n st)"
| "InternalMemoryPool_step Free st = InternalMemoryPool_free st"
| "InternalMemoryPool_step Zero_allocated_memory st = InternalMemoryPool_zero_allocated_memory st"

fun InternalMemoryPool_run :: "op list \<Rightarrow> InternalMemoryPool \<times> world \<Rightarrow> InternalMemoryPool \<times> world" where
  "InternalMemoryPool_run [] st = st"
| "InternalMemoryPool_run (x # xs) st = InternalMemoryPool_run xs (InternalMemoryPool_step x st)"

text \<open>
  A run of \<open>allocate\<close> calls on one segment that collects the returned pointers; it stops
  at the first failure.
\<close>

fun InternalMemoryPool_allocates ::
    "size_t list \<Rightarrow> InternalMemoryPool \<times> world \<Rightarrow> (error + addr list) \<times> InternalMemoryPool \<times> world" where
  "InternalMemoryPool_allocates [] st = (Inr [], st)"
| "InternalMemoryPool_allocates (n # ns) st =
     (case InternalMemoryPool_allocate n st of
        (Inl e, st') \<Rightarrow> (Inl e, st')
      | (Inr p, st') \<Rightarrow>
          (case InternalMemoryPool_allocates ns st' of
             (Inl e, st'') \<Rightarrow> (Inl e, st'')
           | (Inr ps, st'') \<Rightarrow> (Inr (p # ps), st'')))"

fun is_free_call :: "call \<Rightarrow> bool" where
  "is_free_call (Free_call al p) = True"
| "is_free_call c = False"

fun is_malloc_call :: "call \<Rightarrow> bool" where
  "is_malloc_call (Malloc_call al n r) = True"
| "is_malloc_call c = False"

fun call_allocator :: "call \<Rightarrow> MemAllocator" where
  "call_allocator (Malloc_call al n r) = al"
| "call_allocator (Free_call al p) = al"
| "call_allocator (Zero_call al p n) = al"

subsection \<open>DynamicCPUMemoryPool: the dynamic segment\<close>

text \<open>
  The fields of a constructed \<open>DynamicCPUMemoryPool\<close>: the inherited \<open>used\<close>, \<open>a\<close>,
  \<open>name\<close>, \<open>capacity\<close> and \<open>mem\<close> (lines 21-29) and its own \<open>ptrs\<close> and \<open>sizes\<close>
  (lines 34-35). The class has no member that assigns \<open>used\<close>, \<open>capacity\<close> or \<open>mem\<close>
  in the header; \<open>None\<close> is their indeterminate value.
\<close>

record DynamicCPUMemoryPool =
  d_used :: "size_t option"
  d_alloc :: MemAllocator
  d_name :: string
  d_capacity :: "size_t option"
  d_mem :: "addr option"
  ptrs :: "addr list"
  sizes :: "size_t list"

text \<open>
  Modelled from the spec: \<open>DynamicCPUMemoryPool::sys_alloc\<close> (declared at line 65), "any
  construction-time capacity hint is accepted for interface symmetry but not eagerly
  reserved".
\<close>

definition DynamicCPUMemoryPool_sys_alloc ::
    "size_t \<Rightarrow> DynamicCPUMemoryPool \<times> world \<Rightarrow> DynamicCPUMemoryPool \<times> world" where
  "DynamicCPUMemoryPool_sys_alloc cp st = st"

text \<open>\<open>zero_all\<close> (line 66): the empty body.\<close>

definition DynamicCPUMemoryPool_zero_all ::
    "DynamicCPUMemoryPool \<times> world \<Rightarrow> DynamicCPUMemoryPool \<times> world" where
  "DynamicCPUMemoryPool_zero_all st = st"

text \<open>
  The constructor (lines 38-42): the base part \<open>BaseMemoryPool(name, a)\<close> stores the
  injected allocator, then \<open>sys_alloc(cap); zero_all(); this->a = new CPUAllocator();\<close>.
\<close>

definition DynamicCPUMemoryPool_ctor ::
    "string \<Rightarrow> size_t \<Rightarrow> MemAllocator \<Rightarrow> world \<Rightarrow> DynamicCPUMemoryPool \<times> world" where
  "DynamicCPUMemoryPool_ctor nm cp al w =
     (case DynamicCPUMemoryPool_zero_all
             (DynamicCPUMemoryPool_sys_alloc cp
                (\<lparr>d_used = None, d_alloc = al, d_name = nm, d_capacity = None, d_mem = None,
                  ptrs = [], sizes = []\<rparr>, w)) of
        (d, w1) \<Rightarrow> (case new_CPUAllocator w1 of (pa, w2) \<Rightarrow> (d\<lparr>d_alloc := pa\<rparr>, w2)))"

text \<open>
  Modelled from the spec: \<open>DynamicCPUMemoryPool::allocate\<close> (declared at line 49),
  "requests exactly n bytes as a fresh, standalone block, records (pointer, size), and
  returns the pointer".
\<close>

definition DynamicCPUMemoryPool_allocate ::
    "size_t \<Rightarrow> DynamicCPUMemoryPool \<times> world \<Rightarrow> (error + addr) \<times> DynamicCPUMemoryPool \<times> world" where
  "DynamicCPUMemoryPool_allocate n st =
     (case st of (d, w) \<Rightarrow>
        (case MemAllocator_malloc (d_alloc d) n w of
           (None, w') \<Rightarrow> (Inl AllocationFailure, d, w')
         | (Some p, w') \<Rightarrow> (Inr p, d\<lparr>ptrs := ptrs d @ [p], sizes := sizes d @ [n]\<rparr>, w')))"

text \<open>
  Modelled from the spec: \<open>DynamicCPUMemoryPool::zero\<close> (declared at line 50), "zeros
  each recorded block individually": the block of \<open>n\<close> bytes at \<open>p\<close>.
\<close>

definition DynamicCPUMemoryPool_zero ::
    "addr \<Rightarrow> size_t \<Rightarrow> DynamicCPUMemoryPool \<times> world \<Rightarrow> DynamicCPUMemoryPool \<times> world" where
  "DynamicCPUMemoryPool_zero p n st =
     (case st of (d, w) \<Rightarrow> (d, MemAllocator_zero (d_alloc d) p n w))"

text \<open>The loop of \<open>free\<close> (lines 53-54): \<open>for (auto p : ptrs) a->free(p);\<close>.\<close>

fun free_each :: "MemAllocator \<Rightarrow> addr list \<Rightarrow> world \<Rightarrow> world" where
  "free_each al [] w = w"
| "free_each al (p # ps) w = free_each al ps (MemAllocator_free al p w)"

text \<open>\<open>free\<close> (lines 52-57): the loop, then \<open>ptrs.clear(); sizes.clear();\<close>.\<close>

definition DynamicCPUMemoryPool_free ::
    "DynamicCPUMemoryPool \<times> world \<Rightarrow> DynamicCPUMemoryPool \<times> world" where
  "DynamicCPUMemoryPool_free st =
     (case st of (d, w) \<Rightarrow> (d\<lparr>ptrs := [], sizes := []\<rparr>, free_each (d_alloc d) (ptrs d) w))"

text \<open>
  The loop of \<open>zero_allocated_memory\<close> (lines 60-61), \<open>zero(ptrs[i], sizes[i])\<close> for
  \<open>i\<close> from 0 below \<open>ptrs.size()\<close>, on the blocks from index \<open>i\<close> on. The two vectors
  have the same length in every state the class reaches; the loop of the model ends
  where either is exhausted. The counter is an \<open>unsigned\<close>, read here as a natural
  number: the two agree below \<open>2^32\<close> recorded blocks.
\<close>

fun zero_each :: "addr list \<Rightarrow> size_t list \<Rightarrow> DynamicCPUMemoryPool \<times> world \<Rightarrow> DynamicCPUMemoryPool \<times> world" where
  "zero_each (p # ps) (n # ns) st = zero_each ps ns (DynamicCPUMemoryPool_zero p n st)"
| "zero_each ps ns st = st"

definition DynamicCPUMemoryPool_zero_allocated_memory ::
    "DynamicCPUMemoryPool \<times> world \<Rightarrow> DynamicCPUMemoryPool \<times> world" where
  "DynamicCPUMemoryPool_zero_allocated_memory st = zero_each (ptrs (fst st)) (sizes (fst st)) st"

text \<open>
  The destructor (lines 44-47): \<open>free(); delete a;\<close>. Deleting the allocator object
  makes no call on a backend.
\<close>

definition DynamicCPUMemoryPool_dtor :: "DynamicCPUMemoryPool \<times> world \<Rightarrow> world" where
  "DynamicCPUMemoryPool_dtor st = snd (DynamicCPUMemoryPool_free st)"

fun DynamicCPUMemoryPool_step :: "op \<Rightarrow> DynamicCPUMemoryPool \<times> world \<Rightarrow> DynamicCPUMemoryPool \<times> world" where
  "DynamicCPUMemoryPool_step (Allocate n) st = snd (DynamicCPUMemoryPool_allocate n st)"
| "DynamicCPUMemoryPool_step Free st = DynamicCPUMemoryPool_free st"
| "DynamicCPUMemoryPool_step Zero_allocated_memory st = DynamicCPUMemoryPool_zero_allocated_memory st"

fun DynamicCPUMemoryPool_run :: "op list \<Rightarrow> DynamicCPUMemoryPool \<times> world \<Rightarrow> DynamicCPUMemoryPool \<times> world" where
  "DynamicCPUMemoryPool_run [] st = st"
| "DynamicCPUMemoryPool_run (x # xs) st = DynamicCPUMemoryPool_run xs (DynamicCPUMemoryPool_step x st)"

fun DynamicCPUMemoryPool_allocates ::
    "size_t list \<Rightarrow> DynamicCPUMemoryPool \<times> world \<Rightarrow> (error + addr list) \<times> DynamicCPUMemoryPool \<times> world" where
  "DynamicCPUMemoryPool_allocates [] st = (Inr [], st)"
| "DynamicCPUMemoryPool_allocates (n # ns) st =
     (case DynamicCPUMemoryPool_allocate n st of
        (Inl e, st') \<Rightarrow> (Inl e, st')
      | (Inr p, st') \<Rightarrow>
          (case DynamicCPUMemoryPool_allocates ns st' of
             (Inl e, st'') \<Rightarrow> (Inl e, st'')
           | (Inr ps, st'') \<Rightarrow> (Inr (p # ps), st'')))"

subsection \<open>Segments behind a BaseMemoryPool handle\<close>

text \<open>
  \<open>std::vector<BaseMemoryPool *> pools\<close> (line 115) holds objects of either class;
  a virtual call dispatches on the class.
\<close>

datatype segment = Fixed InternalMemoryPool | Dynamic DynamicCPUMemoryPool

fun is_Dynamic :: "segment \<Rightarrow> bool" where
  "is_Dynamic (Dynamic d) = True"
| "is_Dynamic (Fixed s) = False"

text \<open>The member \<open>used\<close> as read through a \<open>BaseMemoryPool\<close> handle: the one of line 21.\<close>

fun BaseMemoryPool_used :: "segment \<Rightarrow> size_t option" where
  "BaseMemoryPool_used (Fixed s) = base_used s"
| "BaseMemoryPool_used (Dynamic d) = d_used d"

fun segment_allocate :: "size_t \<Rightarrow> segment \<times> world \<Rightarrow> (error + addr) \<times> segment \<times> world" where
  "segment_allocate n (Fixed s, w) =
     (case InternalMemoryPool_allocate n (s, w) of (r, s', w') \<Rightarrow> (r, Fixed s', w'))"
| "segment_allocate n (Dynamic d, w) =
     (case DynamicCPUMemoryPool_allocate n (d, w) of (r, d', w') \<Rightarrow> (r, Dynamic d', w'))"

fun segment_free :: "segment \<times> world \<Rightarrow> segment \<times> world" where
  "segment_free (Fixed s, w) = (case InternalMemoryPool_free (s, w) of (s', w') \<Rightarrow> (Fixed s', w'))"
| "segment_free (Dynamic d, w) =
     (case DynamicCPUMemoryPool_free (d, w) of (d', w') \<Rightarrow> (Dynamic d', w'))"

fun segment_zero_allocated_memory :: "segment \<times> world \<Rightarrow> segment \<times> world" where
  "segment_zero_allocated_memory (Fixed s, w) =
     (case InternalMemoryPool_zero_allocated_memory (s, w) of (s', w') \<Rightarrow> (Fixed s', w'))"
| "segment_zero_allocated_memory (Dynamic d, w) =
     (case DynamicCPUMemoryPool_zero_allocated_memory (d, w) of (d', w') \<Rightarrow> (Dynamic d', w'))"

text \<open>
  Modelled from the spec: the quantity \<open>used\<close> of a segment, "a used cursor (Fixed)"
  and "used defined as their size sum (Dynamic)".
\<close>

fun segment_used :: "segment \<Rightarrow> size_t" where
  "segment_used (Fixed s) = used s"
| "segment_used (Dynamic d) = sum_list (sizes d)"

text \<open>
  Modelled from the spec: whether a segment can satisfy a request, from its "remaining
  capacity": a fixed segment when \<open>used + n\<close> does not exceed \<open>capacity\<close>; "Dynamic
  segments never exhaust".
\<close>

fun can_satisfy :: "segment \<Rightarrow> size_t \<Rightarrow> bool" where
  "can_satisfy (Fixed s) n = (used s + n \<le> capacity s)"
| "can_satisfy (Dynamic d) n = True"

text \<open>The base address of a segment's buffer; a dynamic segment has no buffer.\<close>

fun segment_base :: "segment \<Rightarrow> addr option" where
  "segment_base (Fixed s) = Some (mem s)"
| "segment_base (Dynamic d) = d_mem d"

text \<open>The addresses a segment has handed out since its last \<open>free\<close>.\<close>

fun blocks_bytes :: "addr list \<Rightarrow> size_t list \<Rightarrow> addr set" where
  "blocks_bytes (p # ps) (n # ns) = {p ..< p + n} \<union> blocks_bytes ps ns"
| "blocks_bytes ps ns = {}"

fun allocated_bytes :: "segment \<Rightarrow> addr set" where
  "allocated_bytes (Fixed s) = {mem s ..< mem s + used s}"
| "allocated_bytes (Dynamic d) = blocks_bytes (ptrs d) (sizes d)"

subsection \<open>AlignedMemoryPool: the growable pool\<close>

text \<open>
  The fields of lines 115-125; \<open>pool_a\<close> and \<open>pool_name\<close> are the members \<open>a\<close> and
  \<open>name\<close>. \<open>current\<close> is an index into \<open>pools\<close>, never negative.
\<close>

record AlignedMemoryPool =
  pools :: "segment list"
  pool_a :: MemAllocator
  pool_name :: string
  cap :: size_t
  current :: nat
  expanding_unit :: size_t
  dynamic :: bool

text \<open>\<open>is_dynamic\<close> (line 118).\<close>

definition is_dynamic :: "AlignedMemoryPool \<Rightarrow> bool" where
  "is_dynamic p = dynamic p"

text \<open>
  Modelled from the spec: the construction of "a new segment of the configured variant
  using the pool's allocator".
\<close>

definition new_segment ::
    "bool \<Rightarrow> string \<Rightarrow> size_t \<Rightarrow> MemAllocator \<Rightarrow> world \<Rightarrow> (error + segment) \<times> world" where
  "new_segment dyn nm sz al w =
     (if dyn then (case DynamicCPUMemoryPool_ctor nm sz al w of (d, w') \<Rightarrow> (Inr (Dynamic d), w'))
      else (case InternalMemoryPool_ctor nm sz al w of
              (Inl e, w') \<Rightarrow> (Inl e, w')
            | (Inr s, w') \<Rightarrow> (Inr (Fixed s), w')))"

text \<open>
  Modelled from the spec: the constructor of \<open>AlignedMemoryPool\<close> (declared at line 103),
  "constructed with a name, an initial capacity (size of the first segment), an
  allocator, an expanding_unit and a dynamic flag". The default arguments of the
  declaration (\<open>1<<24\<close> and \<open>false\<close>) are the caller's when it leaves them out.
\<close>

definition AlignedMemoryPool_ctor ::
    "string \<Rightarrow> size_t \<Rightarrow> MemAllocator \<Rightarrow> size_t \<Rightarrow> bool \<Rightarrow> world \<Rightarrow> (error + AlignedMemoryPool) \<times> world" where
  "AlignedMemoryPool_ctor nm initial_cap al eu dyn w =
     (case new_segment dyn nm initial_cap al w of
        (Inl e, w') \<Rightarrow> (Inl e, w')
      | (Inr seg, w') \<Rightarrow>
          (Inr \<lparr>pools = [seg], pool_a = al, pool_name = nm, cap = initial_cap, current = 0,
                expanding_unit = eu, dynamic = dyn\<rparr>, w'))"

text \<open>
  Modelled from the spec: \<open>AlignedMemoryPool::allocate\<close> (declared at line 106). "If the
  active segment can satisfy n, delegate directly and return its result. Otherwise,
  grow: compute a new segment size = max(n, expanding_unit) rounded to the alignment
  granularity; construct a new segment of the configured variant using the pool's
  allocator; append it, advance current to point at it, and allocate n from the new
  segment. Growth failure propagates as a fatal AllocationFailure." A pool with no
  active segment has lost its bookkeeping, the fatal \<open>OutOfPoolSpace\<close>.
\<close>

definition AlignedMemoryPool_allocate ::
    "size_t \<Rightarrow> AlignedMemoryPool \<times> world \<Rightarrow> (error + addr) \<times> AlignedMemoryPool \<times> world" where
  "AlignedMemoryPool_allocate n st =
     (case st of (p, w) \<Rightarrow>
        (case drop (current p) (pools p) of
           [] \<Rightarrow> (Inl OutOfPoolSpace, p, w)
         | seg # rest \<Rightarrow>
             if can_satisfy seg n then
               (case segment_allocate n (seg, w) of
                  (r, seg', w') \<Rightarrow> (r, p\<lparr>pools := (pools p)[current p := seg']\<rparr>, w'))
             else
               (case new_segment (dynamic p) (pool_name p)
                       (round_up_align (pool_a p) (max n (expanding_unit p))) (pool_a p) w of
                  (Inl e, w1) \<Rightarrow> (Inl e, p, w1)
                | (Inr new, w1) \<Rightarrow>
                    (case segment_allocate n (new, w1) of
                       (r, new', w2) \<Rightarrow>
                         (r, p\<lparr>pools := pools p @ [new'], current := length (pools p)\<rparr>, w2)))))"

text \<open>The loop of the pool's \<open>free\<close> over the segment list.\<close>

fun free_segments :: "segment list \<Rightarrow> world \<Rightarrow> segment list \<times> world" where
  "free_segments [] w = ([], w)"
| "free_segments (seg # segs) w =
     (case segment_free (seg, w) of
        (seg', w') \<Rightarrow> (case free_segments segs w' of (segs', w'') \<Rightarrow> (seg' # segs', w'')))"

text \<open>
  Modelled from the spec: \<open>AlignedMemoryPool::free\<close> (declared at line 108), "calls
  free() on every segment in the list and resets current to 0".
\<close>

definition AlignedMemoryPool_free :: "AlignedMemoryPool \<times> world \<Rightarrow> AlignedMemoryPool \<times> world" where
  "AlignedMemoryPool_free st =
     (case st of (p, w) \<Rightarrow>
        (case free_segments (pools p) w of (segs, w') \<Rightarrow> (p\<lparr>pools := segs, current := 0\<rparr>, w')))"

fun zero_segments :: "segment list \<Rightarrow> world \<Rightarrow> segment list \<times> world" where
  "zero_segments [] w = ([], w)"
| "zero_segments (seg # segs) w =
     (case segment_zero_allocated_memory (seg, w) of
        (seg', w') \<Rightarrow> (case zero_segments segs w' of (segs', w'') \<Rightarrow> (seg' # segs', w'')))"

text \<open>
  Modelled from the spec: \<open>AlignedMemoryPool::zero_allocated_memory\<close> (declared at line
  110), "zeros only the bytes allocated since the last free(), across every active
  segment": each segment zeros its allocated bytes.
\<close>

definition AlignedMemoryPool_zero_allocated_memory ::
    "AlignedMemoryPool \<times> world \<Rightarrow> AlignedMemoryPool \<times> world" where
  "AlignedMemoryPool_zero_allocated_memory st =
     (case st of (p, w) \<Rightarrow>
        (case zero_segments (pools p) w of (segs, w') \<Rightarrow> (p\<lparr>pools := segs\<rparr>, w')))"

text \<open>
  Modelled from the spec: \<open>AlignedMemoryPool::used\<close> (declared at line 112), "aggregate
  sum of used across all segments up to and including current".
\<close>

definition AlignedMemoryPool_used :: "AlignedMemoryPool \<Rightarrow> size_t" where
  "AlignedMemoryPool_used p = sum_list (map segment_used (take (Suc (current p)) (pools p)))"

text \<open>
  Modelled from the spec: \<open>AlignedMemoryPool::set_used\<close> (declared at line 113),
  "restores the allocation cursor to a previously observed value s; it does not remove
  or merge segments": the cursor of the active fixed segment is put where the aggregate
  reads \<open>s\<close> (at 0 when \<open>s\<close> is below what the earlier segments hold, which the
  operation "assumes" not to happen). A dynamic segment has "no contiguous range to
  rewind", and the class has no member that drops a part of its records: they stay.
\<close>

definition AlignedMemoryPool_set_used :: "size_t \<Rightarrow> AlignedMemoryPool \<Rightarrow> AlignedMemoryPool" where
  "AlignedMemoryPool_set_used s p =
     (case drop (current p) (pools p) of
        Fixed f # rest \<Rightarrow>
          p\<lparr>pools := (pools p)[current p :=
               Fixed (f\<lparr>used := s - sum_list (map segment_used (take (current p) (pools p)))\<rparr>)]\<rparr>
      | _ \<Rightarrow> p)"

text \<open>A run of \<open>allocate\<close> calls on the pool; it stops at the first failure.\<close>

fun AlignedMemoryPool_allocates ::
    "size_t list \<Rightarrow> AlignedMemoryPool \<times> world \<Rightarrow> (error + addr list) \<times> AlignedMemoryPool \<times> world" where
  "AlignedMemoryPool_allocates [] st = (Inr [], st)"
| "AlignedMemoryPool_allocates (n # ns) st =
     (case AlignedMemoryPool_allocate n st of
        (Inl e, st') \<Rightarrow> (Inl e, st')
      | (Inr p, st') \<Rightarrow>
          (case AlignedMemoryPool_allocates ns st' of
             (Inl e, st'') \<Rightarrow> (Inl e, st'')
           | (Inr ps, st'') \<Rightarrow> (Inr (p # ps), st'')))"

text \<open>
  The operations a caller can invoke on a pool, and a run of them in order; the states a
  pool reaches are the runs from a constructed pool.
\<close>

datatype pool_op = Pool_allocate size_t | Pool_free | Pool_set_used size_t | Pool_zero_allocated_memory

fun AlignedMemoryPool_step :: "pool_op \<Rightarrow> AlignedMemoryPool \<times> world \<Rightarrow> AlignedMemoryPool \<times> world" where
  "AlignedMemoryPool_step (Pool_allocate n) st = snd (AlignedMemoryPool_allocate n st)"
| "AlignedMemoryPool_step Pool_free st = AlignedMemoryPool_free st"
| "AlignedMemoryPool_step (Pool_set_used s) st = (AlignedMemoryPool_set_used s (fst st), snd st)"
| "AlignedMemoryPool_step Pool_zero_allocated_memory st = AlignedMemoryPool_zero_allocated_memory st"

fun AlignedMemoryPool_run :: "pool_op list \<Rightarrow> AlignedMemoryPool \<times> world \<Rightarrow> AlignedMemoryPool \<times> world" where
  "AlignedMemoryPool_run [] st = st"
| "AlignedMemoryPool_run (x # xs) st = AlignedMemoryPool_run xs (AlignedMemoryPool_step x st)"

subsection \<open>Observations on segments and pools\<close>

text \<open>The allocator object a segment calls.\<close>

fun segment_allocator :: "segment \<Rightarrow> MemAllocator" where
  "segment_allocator (Fixed s) = alloc s"
| "segment_allocator (Dynamic d) = d_alloc d"

text \<open>The blocks a segment has on record, oldest first; a fixed segment keeps no record.\<close>

fun recorded_blocks :: "segment \<Rightarrow> addr list" where
  "recorded_blocks (Fixed s) = []"
| "recorded_blocks (Dynamic d) = ptrs d"

fun recorded_sizes :: "segment \<Rightarrow> size_t list" where
  "recorded_sizes (Fixed s) = []"
| "recorded_sizes (Dynamic d) = sizes d"

text \<open>A pool in dynamic mode: it has an active segment and all its segments are dynamic.\<close>

definition dynamic_pool :: "AlignedMemoryPool \<Rightarrow> bool" where
  "dynamic_pool p = (current p < length (pools p) \<and> list_all is_Dynamic (pools p))"

text \<open>
  The alignment-rounded sum of a list of request sizes, and the offset at which the
  \<open>i\<close>-th request of a list starts when the segment was empty before the first.
\<close>

definition rounded_sum :: "MemAllocator \<Rightarrow> size_t list \<Rightarrow> size_t" where
  "rounded_sum al ns = sum_list (map (round_up_align al) ns)"

definition offset_of :: "MemAllocator \<Rightarrow> size_t list \<Rightarrow> nat \<Rightarrow> size_t" where
  "offset_of al ns i = rounded_sum al (take i ns)"

text \<open>
  What holds of a pool in every state it reaches: \<open>current\<close> points at a segment, and
  every segment is of the variant the \<open>dynamic\<close> flag selects.
\<close>

definition pool_inv :: "AlignedMemoryPool \<Rightarrow> bool" where
  "pool_inv p =
     (current p < length (pools p) \<and> list_all (\<lambda>seg. is_Dynamic seg = dynamic p) (pools p))"

subsection \<open>Example inputs\<close>

definition host_allocator :: MemAllocator where
  "host_allocator = \<lparr>oid = 0, backend = Host, align = 32\<rparr>"

definition device_allocator :: MemAllocator where
  "device_allocator = \<lparr>oid = 1, backend = Device, align = 256\<rparr>"

definition example_world :: world where
  "example_world =
     \<lparr>bytes = (\<lambda>x. 255), calls = [], avail = [4096, 8192, 12288], next_oid = 2, host_align = 32\<rparr>"

definition example_segment :: InternalMemoryPool where
  "example_segment =
     \<lparr>base_used = None, alloc = host_allocator, name = ''scratch'', capacity = 1024, mem = 4096,
      used = 512\<rparr>"

definition example_pool :: AlignedMemoryPool where
  "example_pool =
     \<lparr>pools = [Fixed example_segment], pool_a = host_allocator, pool_name = ''scratch'',
      cap = 1024, current = 0, expanding_unit = 1024, dynamic = False\<rparr>"

definition example_dynamic_segment :: DynamicCPUMemoryPool where
  "example_dynamic_segment =
     \<lparr>d_used = None, d_alloc = \<lparr>oid = 2, backend = Host, align = 32\<rparr>, d_name = ''scratch'',
      d_capacity = None, d_mem = None, ptrs = [], sizes = []\<rparr>"

definition word_allocator :: MemAllocator where
  "word_allocator = \<lparr>oid = 0, backend = Host, align = 4\<rparr>"

definition example_dynamic_pool :: AlignedMemoryPool where
  "example_dynamic_pool =
     \<lparr>pools = [Dynamic (example_dynamic_segment\<lparr>ptrs := [20480], sizes := [8]\<rparr>)],
      pool_a = device_allocator, pool_name = ''scratch'', cap = 1024, current = 0,
      expanding_unit = 1024, dynamic = True\<rparr>"

definition example_dynamic_allocated :: "AlignedMemoryPool \<times> world" where
  "example_dynamic_allocated =
     snd (AlignedMemoryPool_allocates [24, 100]
            (AlignedMemoryPool_free (example_dynamic_pool, example_world)))"

text \<open>
  The pool of the growth example, as its constructor returns it for initial capacity
  1024, expanding unit 1024 and the host allocator of granularity 32, and the backend
  state the constructor leaves.
\<close>

definition example_fresh_pool :: AlignedMemoryPool where
  "example_fresh_pool =
     \<lparr>pools = [Fixed (example_segment\<lparr>used := 0\<rparr>)], pool_a = host_allocator,
      pool_name = ''scratch'', cap = 1024, current = 0, expanding_unit = 1024, dynamic = False\<rparr>"

definition example_fresh_world :: world where
  "example_fresh_world =
     \<lparr>bytes = (\<lambda>x. if 4096 \<le> x \<and> x < 4096 + 1024 then 0 else 255),
      calls = [Malloc_call host_allocator 1024 (Some 4096), Zero_call host_allocator 4096 1024],
      avail = [8192, 12288], next_oid = 2, host_align = 32\<rparr>"

text \<open>
  The pool in dynamic mode that the constructor returns for the device allocator in
  \<open>example_world\<close>.
\<close>

definition example_dynamic_fresh :: AlignedMemoryPool where
  "example_dynamic_fresh = example_dynamic_pool\<lparr>pools := [Dynamic example_dynamic_segment]\<rparr>"

section \<open>Properties\<close>

subsection \<open>Unfolding the examples\<close>

lemmas example_defs =
  host_allocator_def device_allocator_def example_world_def example_segment_def

lemmas allocator_defs =
  MemAllocator_malloc_def MemAllocator_free_def MemAllocator_zero_def round_up_align_def
  new_CPUAllocator_def

lemmas fixed_defs =
  InternalMemoryPool_allocate_def InternalMemoryPool_free_def
  InternalMemoryPool_zero_allocated_memory_def InternalMemoryPool_dtor_def
  InternalMemoryPool_ctor_def InternalMemoryPool_sys_alloc_def InternalMemoryPool_zero_all_def

subsection \<open>What a run of operations on a fixed segment leaves alone\<close>

lemma InternalMemoryPool_step_frame:
  "InternalMemoryPool_step x (s, w) = (s', w') \<Longrightarrow>
     base_used s' = base_used s \<and> alloc s' = alloc s \<and> name s' = name s
     \<and> capacity s' = capacity s \<and> mem s' = mem s
     \<and> filter is_free_call (calls w') = filter is_free_call (calls w)
     \<and> filter is_malloc_call (calls w') = filter is_malloc_call (calls w)
     \<and> avail w' = avail w"
  by (cases x)
     (auto simp: InternalMemoryPool_allocate_def InternalMemoryPool_free_def
        InternalMemoryPool_zero_allocated_memory_def MemAllocator_zero_def split: if_splits)

lemma InternalMemoryPool_run_frame:
  "InternalMemoryPool_run xs (s, w) = (s', w') \<Longrightarrow>
     base_used s' = base_used s \<and> alloc s' = alloc s \<and> name s' = name s
     \<and> capacity s' = capacity s \<and> mem s' = mem s
     \<and> filter is_free_call (calls w') = filter is_free_call (calls w)
     \<and> filter is_malloc_call (calls w') = filter is_malloc_call (calls w)
     \<and> avail w' = avail w"
proof (induction xs arbitrary: s w)
  case Nil
  then show ?case by simp
next
  case (Cons x xs)
  obtain s1 w1 where st: "InternalMemoryPool_step x (s, w) = (s1, w1)"
    by (cases "InternalMemoryPool_step x (s, w)")
  from Cons.prems st have "InternalMemoryPool_run xs (s1, w1) = (s', w')" by simp
  from Cons.IH [OF this] InternalMemoryPool_step_frame [OF st] show ?case by simp
qed

lemma InternalMemoryPool_ctor_fields:
  "InternalMemoryPool_ctor nm cp al w = (Inr s, w') \<Longrightarrow>
     base_used s = None \<and> used s = 0 \<and> capacity s = cp \<and> alloc s = al \<and> name s = nm"
  by (auto simp: InternalMemoryPool_ctor_def InternalMemoryPool_sys_alloc_def
      MemAllocator_malloc_def split: list.splits prod.splits sum.splits option.splits)

text \<open>
  C2. \<open>InternalMemoryPool::free\<close> resets the cursor \<open>used\<close> to 0 and does nothing else:
  every other field, the contents of memory and the calls received by the allocator are
  as before, so the buffer is neither released nor modified. No run of \<open>allocate\<close>,
  \<open>free\<close> and \<open>zero_allocated_memory\<close> moves the buffer or makes the allocator receive a
  \<open>free\<close>. The destructor makes exactly one call, \<open>free(mem)\<close>, on the segment's
  allocator.
\<close>

theorem InternalMemoryPool_free_keeps_buffer:
  "InternalMemoryPool_free (s, w) = (s\<lparr>used := 0\<rparr>, w)
   \<and> mem (fst (InternalMemoryPool_run xs (s, w))) = mem s
   \<and> filter is_free_call (calls (snd (InternalMemoryPool_run xs (s, w))))
       = filter is_free_call (calls w)
   \<and> InternalMemoryPool_dtor (s, w) = w\<lparr>calls := calls w @ [Free_call (alloc s) (mem s)]\<rparr>"
proof -
  obtain s' w' where r: "InternalMemoryPool_run xs (s, w) = (s', w')"
    by (cases "InternalMemoryPool_run xs (s, w)")
  from InternalMemoryPool_run_frame [OF r] r show ?thesis
    by (simp add: InternalMemoryPool_free_def InternalMemoryPool_dtor_def MemAllocator_free_def)
qed

theorem InternalMemoryPool_free_keeps_buffer_witness:
  "InternalMemoryPool_free (example_segment, example_world)
     = (example_segment\<lparr>used := 0\<rparr>, example_world)
   \<and> mem (fst (InternalMemoryPool_run [Allocate 100, Zero_allocated_memory, Free]
        (example_segment, example_world))) = 4096
   \<and> filter is_free_call (calls (snd (InternalMemoryPool_run
        [Allocate 100, Zero_allocated_memory, Free] (example_segment, example_world)))) = []
   \<and> calls (InternalMemoryPool_dtor (example_segment, example_world))
       = [Free_call host_allocator 4096]"
  using InternalMemoryPool_free_keeps_buffer
    [of example_segment example_world "[Allocate 100, Zero_allocated_memory, Free]"]
  by (simp add: example_defs)

text \<open>
  C5. \<open>InternalMemoryPool\<close> hides the inherited \<open>BaseMemoryPool::used\<close> behind its own
  \<open>used\<close>. The constructor leaves the inherited member indeterminate, and no run of
  \<open>allocate\<close>, \<open>free\<close> and \<open>zero_allocated_memory\<close> writes it: from a constructed
  segment it stays indeterminate, and from any state it keeps its value. So what a
  \<open>BaseMemoryPool\<close> handle reads as \<open>used\<close> is the same whatever the cursor is.
\<close>

theorem base_used_never_written:
  assumes "InternalMemoryPool_ctor nm cp al w = (Inr s0, w0)"
  shows "base_used s0 = None
    \<and> base_used (fst (InternalMemoryPool_run xs (s0, w0))) = None
    \<and> BaseMemoryPool_used (Fixed (fst (InternalMemoryPool_run xs (s0, w0)))) = None
    \<and> BaseMemoryPool_used (Fixed (fst (InternalMemoryPool_run xs (s, w'))))
        = BaseMemoryPool_used (Fixed s)"
proof -
  have a: "base_used (fst (InternalMemoryPool_run xs (s, w))) = base_used s" for s w
    using InternalMemoryPool_run_frame [of xs s w]
    by (cases "InternalMemoryPool_run xs (s, w)") simp
  from InternalMemoryPool_ctor_fields [OF assms] have "base_used s0 = None" by simp
  with a show ?thesis by simp
qed

theorem base_used_never_written_witness:
  "used (fst (InternalMemoryPool_run [Allocate 500, Zero_allocated_memory]
        (\<lparr>base_used = None, alloc = device_allocator, name = ''scratch'', capacity = 1024,
             mem = 4096, used = 0\<rparr>,
         snd (InternalMemoryPool_ctor ''scratch'' 1024 device_allocator example_world)))) = 512
   \<and> BaseMemoryPool_used (Fixed (fst (InternalMemoryPool_run [Allocate 500, Zero_allocated_memory]
        (\<lparr>base_used = None, alloc = device_allocator, name = ''scratch'', capacity = 1024,
             mem = 4096, used = 0\<rparr>,
         snd (InternalMemoryPool_ctor ''scratch'' 1024 device_allocator example_world))))) = None"
proof -
  have h: "InternalMemoryPool_ctor ''scratch'' 1024 device_allocator example_world
     = (Inr \<lparr>base_used = None, alloc = device_allocator, name = ''scratch'', capacity = 1024,
             mem = 4096, used = 0\<rparr>,
        snd (InternalMemoryPool_ctor ''scratch'' 1024 device_allocator example_world))"
    by (simp add: example_defs fixed_defs allocator_defs)
  show ?thesis
    using base_used_never_written [OF h, of "[Allocate 500, Zero_allocated_memory]"]
    by (simp add: example_defs fixed_defs allocator_defs)
qed


subsection \<open>Zeroing the allocated bytes\<close>

lemma MemAllocator_zero_bytes:
  "bytes (MemAllocator_zero al p n w) x = (if x \<in> {p ..< p + n} then 0 else bytes w x)"
  by (simp add: MemAllocator_zero_def)

lemma InternalMemoryPool_zero_allocated_memory_bytes:
  "bytes (snd (InternalMemoryPool_zero_allocated_memory (s, w))) x =
     (if x \<in> {mem s ..< mem s + used s} then 0 else bytes w x)"
  by (simp add: InternalMemoryPool_zero_allocated_memory_def MemAllocator_zero_bytes)

lemma InternalMemoryPool_zero_allocated_memory_fst:
  "fst (InternalMemoryPool_zero_allocated_memory (s, w)) = s"
  by (simp add: InternalMemoryPool_zero_allocated_memory_def)

lemma zero_each_fst: "fst (zero_each ps ns (d, w)) = d"
  by (induction ps ns "(d, w)" arbitrary: w rule: zero_each.induct)
     (simp_all add: DynamicCPUMemoryPool_zero_def)

lemma zero_each_bytes:
  "bytes (snd (zero_each ps ns (d, w))) x = (if x \<in> blocks_bytes ps ns then 0 else bytes w x)"
  by (induction ps ns "(d, w)" arbitrary: w rule: zero_each.induct)
     (auto simp add: DynamicCPUMemoryPool_zero_def MemAllocator_zero_bytes)

lemma zero_each_calls:
  "calls (snd (zero_each ps ns (d, w))) =
     calls w @ map (\<lambda>(p, n). Zero_call (d_alloc d) p n) (zip ps ns)"
  by (induction ps ns "(d, w)" arbitrary: w rule: zero_each.induct)
     (simp_all add: DynamicCPUMemoryPool_zero_def MemAllocator_zero_def)

lemma segment_zero_allocated_memory_fst: "fst (segment_zero_allocated_memory (seg, w)) = seg"
proof (cases seg)
  case (Fixed s)
  then show ?thesis using InternalMemoryPool_zero_allocated_memory_fst [of s w]
    by (auto split: prod.splits)
next
  case (Dynamic d)
  then show ?thesis using zero_each_fst [of "ptrs d" "sizes d" d w]
    by (auto simp add: DynamicCPUMemoryPool_zero_allocated_memory_def split: prod.splits)
qed

lemma segment_zero_allocated_memory_bytes:
  "bytes (snd (segment_zero_allocated_memory (seg, w))) x =
     (if x \<in> allocated_bytes seg then 0 else bytes w x)"
proof (cases seg)
  case (Fixed s)
  then show ?thesis using InternalMemoryPool_zero_allocated_memory_bytes [of s w x]
    by (auto split: prod.splits)
next
  case (Dynamic d)
  then show ?thesis using zero_each_bytes [of "ptrs d" "sizes d" d w x]
    by (auto simp add: DynamicCPUMemoryPool_zero_allocated_memory_def split: prod.splits)
qed

lemma zero_segments_fst: "fst (zero_segments segs w) = segs"
proof (induction segs arbitrary: w)
  case Nil
  then show ?case by simp
next
  case (Cons seg segs)
  obtain seg' w' where a: "segment_zero_allocated_memory (seg, w) = (seg', w')"
    by (cases "segment_zero_allocated_memory (seg, w)")
  with segment_zero_allocated_memory_fst [of seg w] have "seg' = seg" by simp
  with a Cons.IH [of w'] show ?case by (auto split: prod.splits)
qed

lemma zero_segments_bytes:
  "bytes (snd (zero_segments segs w)) x =
     (if x \<in> (\<Union>seg \<in> set segs. allocated_bytes seg) then 0 else bytes w x)"
proof (induction segs arbitrary: w)
  case Nil
  then show ?case by simp
next
  case (Cons seg segs)
  obtain seg' w' where a: "segment_zero_allocated_memory (seg, w) = (seg', w')"
    by (cases "segment_zero_allocated_memory (seg, w)")
  with segment_zero_allocated_memory_bytes [of seg w x]
  have b: "bytes w' x = (if x \<in> allocated_bytes seg then 0 else bytes w x)" by simp
  from a Cons.IH [of w'] b show ?case by (auto split: prod.splits)
qed

text \<open>
  C7. \<open>InternalMemoryPool::zero_allocated_memory\<close> returns the segment as it was, cursor
  included, and afterwards a byte reads zero if it lies in \<open>[mem, mem + used)\<close> and reads
  as before otherwise. The pool's \<open>zero_allocated_memory\<close> returns the pool as it was, so
  \<open>used()\<close> is unchanged, and afterwards a byte reads zero if a segment of the pool has
  handed it out since its last \<open>free\<close> and reads as before otherwise.
\<close>

theorem zero_allocated_memory_zeros_used_prefix:
  "fst (InternalMemoryPool_zero_allocated_memory (s, w)) = s
   \<and> bytes (snd (InternalMemoryPool_zero_allocated_memory (s, w))) =
       (\<lambda>x. if mem s \<le> x \<and> x < mem s + used s then 0 else bytes w x)
   \<and> fst (AlignedMemoryPool_zero_allocated_memory (p, w)) = p
   \<and> AlignedMemoryPool_used (fst (AlignedMemoryPool_zero_allocated_memory (p, w)))
       = AlignedMemoryPool_used p
   \<and> bytes (snd (AlignedMemoryPool_zero_allocated_memory (p, w))) =
       (\<lambda>x. if x \<in> (\<Union>seg \<in> set (pools p). allocated_bytes seg) then 0 else bytes w x)"
proof -
  have 1: "fst (InternalMemoryPool_zero_allocated_memory (s, w)) = s"
    by (rule InternalMemoryPool_zero_allocated_memory_fst)
  have 2: "bytes (snd (InternalMemoryPool_zero_allocated_memory (s, w))) =
       (\<lambda>x. if mem s \<le> x \<and> x < mem s + used s then 0 else bytes w x)"
    using InternalMemoryPool_zero_allocated_memory_bytes [of s w] by auto
  have 3: "fst (AlignedMemoryPool_zero_allocated_memory (p, w)) = p"
    using zero_segments_fst [of "pools p" w]
    by (auto simp add: AlignedMemoryPool_zero_allocated_memory_def split: prod.splits)
  have 4: "bytes (snd (AlignedMemoryPool_zero_allocated_memory (p, w))) x =
     (if x \<in> (\<Union>seg \<in> set (pools p). allocated_bytes seg) then 0 else bytes w x)" for x
    using zero_segments_bytes [of "pools p" w x]
    by (auto simp add: AlignedMemoryPool_zero_allocated_memory_def split: prod.splits)
  from 4 have 5: "bytes (snd (AlignedMemoryPool_zero_allocated_memory (p, w))) =
       (\<lambda>x. if x \<in> (\<Union>seg \<in> set (pools p). allocated_bytes seg) then 0 else bytes w x)"
    by (rule ext)
  from 1 2 3 5 show ?thesis by simp
qed

theorem zero_allocated_memory_zeros_used_prefix_witness:
  "used (fst (InternalMemoryPool_zero_allocated_memory (example_segment, example_world))) = 512
   \<and> bytes (snd (InternalMemoryPool_zero_allocated_memory (example_segment, example_world))) 4095 = 255
   \<and> bytes (snd (InternalMemoryPool_zero_allocated_memory (example_segment, example_world))) 4096 = 0
   \<and> bytes (snd (InternalMemoryPool_zero_allocated_memory (example_segment, example_world))) 4607 = 0
   \<and> bytes (snd (InternalMemoryPool_zero_allocated_memory (example_segment, example_world))) 4608 = 255
   \<and> AlignedMemoryPool_used (fst (AlignedMemoryPool_zero_allocated_memory (example_pool, example_world))) = 512
   \<and> bytes (snd (AlignedMemoryPool_zero_allocated_memory (example_pool, example_world))) 4607 = 0
   \<and> bytes (snd (AlignedMemoryPool_zero_allocated_memory (example_pool, example_world))) 4608 = 255"
  using zero_allocated_memory_zeros_used_prefix [of example_segment example_world example_pool]
  by (simp add: example_defs example_pool_def AlignedMemoryPool_used_def)


subsection \<open>The dynamic segment and its allocator\<close>

lemmas dynamic_defs =
  DynamicCPUMemoryPool_ctor_def DynamicCPUMemoryPool_sys_alloc_def
  DynamicCPUMemoryPool_zero_all_def DynamicCPUMemoryPool_allocate_def
  DynamicCPUMemoryPool_zero_def DynamicCPUMemoryPool_free_def
  DynamicCPUMemoryPool_zero_allocated_memory_def DynamicCPUMemoryPool_dtor_def

lemma DynamicCPUMemoryPool_ctor_eq:
  "DynamicCPUMemoryPool_ctor nm cp al w =
     (\<lparr>d_used = None, d_alloc = \<lparr>oid = next_oid w, backend = Host, align = host_align w\<rparr>,
       d_name = nm, d_capacity = None, d_mem = None, ptrs = [], sizes = []\<rparr>,
      w\<lparr>next_oid := Suc (next_oid w)\<rparr>)"
  by (simp add: DynamicCPUMemoryPool_ctor_def DynamicCPUMemoryPool_zero_all_def
      DynamicCPUMemoryPool_sys_alloc_def new_CPUAllocator_def)

lemma free_each_eq: "free_each al ps w = w\<lparr>calls := calls w @ map (Free_call al) ps\<rparr>"
  by (induction ps arbitrary: w) (simp_all add: MemAllocator_free_def)

lemma DynamicCPUMemoryPool_free_eq:
  "DynamicCPUMemoryPool_free (d, w) =
     (d\<lparr>ptrs := [], sizes := []\<rparr>, w\<lparr>calls := calls w @ map (Free_call (d_alloc d)) (ptrs d)\<rparr>)"
  by (simp add: DynamicCPUMemoryPool_free_def free_each_eq)

lemma DynamicCPUMemoryPool_allocate_cases:
  "DynamicCPUMemoryPool_allocate n (d, w) =
     (case avail w of
        [] \<Rightarrow> (Inl AllocationFailure, d, w\<lparr>calls := calls w @ [Malloc_call (d_alloc d) n None]\<rparr>)
      | b # bs \<Rightarrow> (Inr b, d\<lparr>ptrs := ptrs d @ [b], sizes := sizes d @ [n]\<rparr>,
                    w\<lparr>calls := calls w @ [Malloc_call (d_alloc d) n (Some b)], avail := bs\<rparr>))"
  by (simp add: DynamicCPUMemoryPool_allocate_def MemAllocator_malloc_def split: list.splits)

lemma DynamicCPUMemoryPool_step_calls:
  "\<exists>d' w' cs. DynamicCPUMemoryPool_step x (d, w) = (d', w') \<and> d_alloc d' = d_alloc d
      \<and> calls w' = calls w @ cs \<and> list_all (\<lambda>c. call_allocator c = d_alloc d) cs"
proof (cases x)
  case (Allocate n)
  then show ?thesis
    by (cases "avail w") (simp_all add: DynamicCPUMemoryPool_allocate_cases)
next
  case Free
  then show ?thesis by (simp add: DynamicCPUMemoryPool_free_eq list_all_iff)
next
  case Zero_allocated_memory
  obtain d' w' where a: "zero_each (ptrs d) (sizes d) (d, w) = (d', w')"
    by (cases "zero_each (ptrs d) (sizes d) (d, w)")
  from a zero_each_fst [of "ptrs d" "sizes d" d w] have "d' = d" by simp
  moreover from a zero_each_calls [of "ptrs d" "sizes d" d w]
  have "calls w' = calls w @ map (\<lambda>(p, n). Zero_call (d_alloc d) p n) (zip (ptrs d) (sizes d))"
    by simp
  moreover have "list_all (\<lambda>c. call_allocator c = d_alloc d)
      (map (\<lambda>(p, n). Zero_call (d_alloc d) p n) (zip (ptrs d) (sizes d)))"
    by (simp add: list_all_iff split_beta)
  ultimately show ?thesis
    using a Zero_allocated_memory by (simp add: DynamicCPUMemoryPool_zero_allocated_memory_def)
qed

lemma DynamicCPUMemoryPool_run_calls:
  "\<exists>d' w' cs. DynamicCPUMemoryPool_run xs (d, w) = (d', w') \<and> d_alloc d' = d_alloc d
      \<and> calls w' = calls w @ cs \<and> list_all (\<lambda>c. call_allocator c = d_alloc d) cs"
proof (induction xs arbitrary: d w)
  case Nil
  show ?case by simp
next
  case (Cons x xs)
  from DynamicCPUMemoryPool_step_calls [of x d w] obtain d1 w1 cs1 where
    a: "DynamicCPUMemoryPool_step x (d, w) = (d1, w1)" "d_alloc d1 = d_alloc d"
       "calls w1 = calls w @ cs1" "list_all (\<lambda>c. call_allocator c = d_alloc d) cs1" by blast
  from Cons.IH [of d1 w1] obtain d2 w2 cs2 where
    b: "DynamicCPUMemoryPool_run xs (d1, w1) = (d2, w2)" "d_alloc d2 = d_alloc d1"
       "calls w2 = calls w1 @ cs2" "list_all (\<lambda>c. call_allocator c = d_alloc d1) cs2" by blast
  have "DynamicCPUMemoryPool_run (x # xs) (d, w) = (d2, w2)" using a b by simp
  moreover have "calls w2 = calls w @ (cs1 @ cs2)" using a b by simp
  moreover have "list_all (\<lambda>c. call_allocator c = d_alloc d) (cs1 @ cs2)" using a b by simp
  ultimately show ?case using a(2) b(2) by metis
qed

text \<open>
  C9. The constructor of \<open>DynamicCPUMemoryPool\<close> replaces the injected allocator by a new
  \<open>CPUAllocator\<close>: the constructed segment holds an allocator object on the host backend
  that did not exist before, the constructed segment and the backend state are the same
  whatever allocator was injected, the constructor itself makes no allocator call, and
  every call made by a later run of \<open>allocate\<close>, \<open>free\<close> and \<open>zero_allocated_memory\<close>
  goes to the segment's own allocator, which no operation replaces.
\<close>

theorem dynamic_segment_private_allocator:
  assumes "DynamicCPUMemoryPool_ctor nm cp al w = (d, w1)"
  shows "d_alloc d = \<lparr>oid = next_oid w, backend = Host, align = host_align w\<rparr>
    \<and> (oid al < next_oid w \<longrightarrow> d_alloc d \<noteq> al)
    \<and> DynamicCPUMemoryPool_ctor nm cp al' w = (d, w1)
    \<and> calls w1 = calls w
    \<and> d_alloc (fst (DynamicCPUMemoryPool_run xs (d, w1))) = d_alloc d
    \<and> list_all (\<lambda>c. call_allocator c = d_alloc d)
         (drop (length (calls w1)) (calls (snd (DynamicCPUMemoryPool_run xs (d, w1)))))"
proof -
  from assms have d: "d = \<lparr>d_used = None,
       d_alloc = \<lparr>oid = next_oid w, backend = Host, align = host_align w\<rparr>,
       d_name = nm, d_capacity = None, d_mem = None, ptrs = [], sizes = []\<rparr>"
    and w1: "w1 = w\<lparr>next_oid := Suc (next_oid w)\<rparr>"
    by (simp_all add: DynamicCPUMemoryPool_ctor_eq)
  from DynamicCPUMemoryPool_run_calls [of xs d w1] obtain d' w' cs where
    r: "DynamicCPUMemoryPool_run xs (d, w1) = (d', w')" "d_alloc d' = d_alloc d"
       "calls w' = calls w1 @ cs" "list_all (\<lambda>c. call_allocator c = d_alloc d) cs" by blast
  have "d_alloc d \<noteq> al" if "oid al < next_oid w"
    using that d by auto
  with d w1 r show ?thesis by (simp add: DynamicCPUMemoryPool_ctor_eq)
qed

theorem dynamic_segment_private_allocator_witness:
  "DynamicCPUMemoryPool_ctor ''scratch'' 4096 device_allocator example_world
     = (example_dynamic_segment, example_world\<lparr>next_oid := 3\<rparr>)
   \<and> backend (d_alloc example_dynamic_segment) = Host
   \<and> d_alloc example_dynamic_segment \<noteq> device_allocator
   \<and> DynamicCPUMemoryPool_ctor ''scratch'' 4096 host_allocator example_world
     = (example_dynamic_segment, example_world\<lparr>next_oid := 3\<rparr>)
   \<and> calls (snd (DynamicCPUMemoryPool_run [Allocate 24, Zero_allocated_memory, Free]
        (example_dynamic_segment, example_world\<lparr>next_oid := 3\<rparr>)))
     = [Malloc_call (d_alloc example_dynamic_segment) 24 (Some 4096),
        Zero_call (d_alloc example_dynamic_segment) 4096 24,
        Free_call (d_alloc example_dynamic_segment) 4096]"
proof -
  have h: "DynamicCPUMemoryPool_ctor ''scratch'' 4096 device_allocator example_world
     = (example_dynamic_segment, example_world\<lparr>next_oid := 3\<rparr>)"
    by (simp add: DynamicCPUMemoryPool_ctor_eq example_defs example_dynamic_segment_def)
  show ?thesis
    using dynamic_segment_private_allocator [OF h, of host_allocator
        "[Allocate 24, Zero_allocated_memory, Free]"] h
    by (simp add: example_defs example_dynamic_segment_def dynamic_defs allocator_defs)
qed

text \<open>
  C10. The constructor of \<open>DynamicCPUMemoryPool\<close> takes the capacity \<open>cp\<close> and reserves
  nothing: the segment it returns has no buffer, no capacity and no recorded block, and
  the backend state differs only by the identity given to the new allocator object (no
  call reached an allocator, no block was handed out). \<open>allocate\<close> never signals that the
  segment is exhausted: it fails only when the backend has no block left, whatever the
  segment holds already.
\<close>

theorem dynamic_segment_no_capacity:
  "fst (DynamicCPUMemoryPool_ctor nm cp al w) =
     \<lparr>d_used = None, d_alloc = \<lparr>oid = next_oid w, backend = Host, align = host_align w\<rparr>,
       d_name = nm, d_capacity = None, d_mem = None, ptrs = [], sizes = []\<rparr>
   \<and> snd (DynamicCPUMemoryPool_ctor nm cp al w) = w\<lparr>next_oid := Suc (next_oid w)\<rparr>
   \<and> fst (DynamicCPUMemoryPool_allocate n (d, w)) \<noteq> Inl OutOfPoolSpace
   \<and> (fst (DynamicCPUMemoryPool_allocate n (d, w)) = Inl AllocationFailure) = (avail w = [])
   \<and> (avail w = b # bs \<longrightarrow> fst (DynamicCPUMemoryPool_allocate n (d, w)) = Inr b)"
  by (auto simp add: DynamicCPUMemoryPool_ctor_eq DynamicCPUMemoryPool_allocate_cases
      split: list.splits)

theorem dynamic_segment_no_capacity_witness:
  "calls (snd (DynamicCPUMemoryPool_ctor ''scratch'' 1000000 host_allocator example_world)) = []
   \<and> avail (snd (DynamicCPUMemoryPool_ctor ''scratch'' 1000000 host_allocator example_world))
       = [4096, 8192, 12288]
   \<and> d_mem (fst (DynamicCPUMemoryPool_ctor ''scratch'' 1000000 host_allocator example_world)) = None
   \<and> fst (DynamicCPUMemoryPool_allocate 5000000 (example_dynamic_segment, example_world)) = Inr 4096"
  using dynamic_segment_no_capacity [of "''scratch''" 1000000 host_allocator example_world
      5000000 example_dynamic_segment 4096 "[8192, 12288]"]
  by (simp add: example_defs)


subsection \<open>The pool's free\<close>

lemma segment_free_eq:
  "segment_free (seg, w) =
     (case seg of Fixed s \<Rightarrow> Fixed (s\<lparr>used := 0\<rparr>) | Dynamic d \<Rightarrow> Dynamic (d\<lparr>ptrs := [], sizes := []\<rparr>),
      w\<lparr>calls := calls w @ map (Free_call (segment_allocator seg)) (recorded_blocks seg)\<rparr>)"
  by (cases seg) (simp_all add: InternalMemoryPool_free_def DynamicCPUMemoryPool_free_eq)

lemma free_segments_eq:
  "free_segments segs w =
     (map (\<lambda>seg. case seg of Fixed s \<Rightarrow> Fixed (s\<lparr>used := 0\<rparr>)
                  | Dynamic d \<Rightarrow> Dynamic (d\<lparr>ptrs := [], sizes := []\<rparr>)) segs,
      w\<lparr>calls := calls w @
           concat (map (\<lambda>seg. map (Free_call (segment_allocator seg)) (recorded_blocks seg)) segs)\<rparr>)"
proof (induction segs arbitrary: w)
  case Nil
  show ?case by simp
next
  case (Cons seg segs)
  show ?case by (simp add: segment_free_eq Cons.IH)
qed

lemma AlignedMemoryPool_free_eq:
  "AlignedMemoryPool_free (p, w) =
     (p\<lparr>pools := map (\<lambda>seg. case seg of Fixed s \<Rightarrow> Fixed (s\<lparr>used := 0\<rparr>)
                  | Dynamic d \<Rightarrow> Dynamic (d\<lparr>ptrs := [], sizes := []\<rparr>)) (pools p),
        current := 0\<rparr>,
      w\<lparr>calls := calls w @
           concat (map (\<lambda>seg. map (Free_call (segment_allocator seg)) (recorded_blocks seg))
             (pools p))\<rparr>)"
  by (simp add: AlignedMemoryPool_free_def free_segments_eq)

lemma concat_map_update_empty:
  "i < length xs \<Longrightarrow> \<forall>x \<in> set xs. f x = [] \<Longrightarrow> concat (map f (xs[i := y])) = f y"
proof (induction xs arbitrary: i)
  case Nil
  then show ?case by simp
next
  case (Cons x xs)
  show ?case
  proof (cases i)
    case 0
    with Cons.prems show ?thesis by simp
  next
    case (Suc j)
    with Cons.prems Cons.IH [of j] show ?thesis by simp
  qed
qed

subsection \<open>Allocation from a pool whose active segment is dynamic\<close>

lemma drop_active: "i < length xs \<Longrightarrow> drop i xs = xs ! i # drop (Suc i) xs"
  by (simp add: Cons_nth_drop_Suc)

lemma AlignedMemoryPool_allocate_dynamic:
  assumes "current p < length (pools p)" and "pools p ! current p = Dynamic d"
  shows "AlignedMemoryPool_allocate n (p, w) =
     (case DynamicCPUMemoryPool_allocate n (d, w) of
        (r, d', w') \<Rightarrow> (r, p\<lparr>pools := (pools p)[current p := Dynamic d']\<rparr>, w'))"
  using assms drop_active [of "current p" "pools p"]
  by (simp add: AlignedMemoryPool_allocate_def split: prod.splits)

lemma AlignedMemoryPool_allocates_dynamic:
  assumes "current p < length (pools p)" and "pools p ! current p = Dynamic d"
    and "AlignedMemoryPool_allocates ns (p, w) = (Inr rs, p', w')"
  shows "p' = p\<lparr>pools := (pools p)[current p :=
                 Dynamic (d\<lparr>ptrs := ptrs d @ rs, sizes := sizes d @ ns\<rparr>)]\<rparr>
         \<and> length rs = length ns"
  using assms
proof (induction ns arbitrary: p d w rs)
  case Nil
  then show ?case by (simp add: list_update_same_conv [THEN iffD2])
next
  case (Cons n ns)
  note al = AlignedMemoryPool_allocate_dynamic [OF Cons.prems(1,2), of n w]
  from Cons.prems(3) al obtain b bs where av: "avail w = b # bs"
    by (cases "avail w") (auto simp: DynamicCPUMemoryPool_allocate_cases)
  let ?d1 = "d\<lparr>ptrs := ptrs d @ [b], sizes := sizes d @ [n]\<rparr>"
  let ?w1 = "w\<lparr>calls := calls w @ [Malloc_call (d_alloc d) n (Some b)], avail := bs\<rparr>"
  let ?p1 = "p\<lparr>pools := (pools p)[current p := Dynamic ?d1]\<rparr>"
  from al av have s: "AlignedMemoryPool_allocate n (p, w) = (Inr b, ?p1, ?w1)"
    by (simp add: DynamicCPUMemoryPool_allocate_cases)
  from Cons.prems(3) s obtain rs' where
    r: "rs = b # rs'" "AlignedMemoryPool_allocates ns (?p1, ?w1) = (Inr rs', p', w')"
    by (auto split: prod.splits sum.splits)
  have c: "current ?p1 < length (pools ?p1)" "pools ?p1 ! current ?p1 = Dynamic ?d1"
    using Cons.prems(1) by simp_all
  from Cons.IH [OF c r(2)] r(1) show ?case by simp
qed

text \<open>
  C8. \<open>DynamicCPUMemoryPool::free\<close> makes one \<open>free\<close> call per recorded block, in the
  order of recording, on the segment's allocator, and clears \<open>ptrs\<close> and \<open>sizes\<close>. For a
  pool in dynamic mode that was just constructed or just freed, after \<open>allocate\<close> calls
  that returned the blocks \<open>rs\<close>, one per call, the pool's \<open>free\<close> makes exactly the calls
  \<open>free(r)\<close> for \<open>r\<close> in \<open>rs\<close>, and leaves no segment with a recorded block or size.
\<close>

theorem dynamic_free_releases_each_block:
  assumes "(dynamic_pool p0 \<and> AlignedMemoryPool_free (p0, w0) = (p, w))
           \<or> AlignedMemoryPool_ctor nm cp al eu True w0 = (Inr p, w)"
    and "AlignedMemoryPool_allocates ns (p, w) = (Inr rs, p', w')"
  shows "DynamicCPUMemoryPool_free (d, v) =
           (d\<lparr>ptrs := [], sizes := []\<rparr>,
            v\<lparr>calls := calls v @ map (Free_call (d_alloc d)) (ptrs d)\<rparr>)
    \<and> length rs = length ns
    \<and> snd (AlignedMemoryPool_free (p', w')) =
        w'\<lparr>calls := calls w' @ map (Free_call (segment_allocator (hd (pools p)))) rs\<rparr>
    \<and> list_all (\<lambda>seg. recorded_blocks seg = [] \<and> recorded_sizes seg = [])
        (pools (fst (AlignedMemoryPool_free (p', w'))))"
proof -
  have fresh: "current p = 0 \<and> pools p \<noteq> [] \<and>
      (\<forall>seg \<in> set (pools p). is_Dynamic seg \<and> recorded_blocks seg = [] \<and> recorded_sizes seg = [])"
    using assms(1)
  proof
    assume a: "dynamic_pool p0 \<and> AlignedMemoryPool_free (p0, w0) = (p, w)"
    then have p: "p = p0\<lparr>pools := map (\<lambda>seg. case seg of Fixed s \<Rightarrow> Fixed (s\<lparr>used := 0\<rparr>)
                  | Dynamic d \<Rightarrow> Dynamic (d\<lparr>ptrs := [], sizes := []\<rparr>)) (pools p0), current := 0\<rparr>"
      by (simp add: AlignedMemoryPool_free_eq)
    from a have "pools p0 \<noteq> []" "\<forall>seg \<in> set (pools p0). is_Dynamic seg"
      by (auto simp: dynamic_pool_def list_all_iff)
    with p show ?thesis by (auto split: segment.splits)
  next
    assume "AlignedMemoryPool_ctor nm cp al eu True w0 = (Inr p, w)"
    then show ?thesis
      by (auto simp: AlignedMemoryPool_ctor_def new_segment_def DynamicCPUMemoryPool_ctor_eq)
  qed
  then obtain d0 where d0: "pools p ! 0 = Dynamic d0" "ptrs d0 = []" "sizes d0 = []"
      "hd (pools p) = Dynamic d0"
    by (cases "pools p"; cases "hd (pools p)") auto
  from fresh have c: "current p < length (pools p)" "pools p ! current p = Dynamic d0"
    using d0 by simp_all
  from AlignedMemoryPool_allocates_dynamic [OF c assms(2)] d0 fresh
  have p': "p' = p\<lparr>pools := (pools p)[0 := Dynamic (d0\<lparr>ptrs := rs, sizes := ns\<rparr>)]\<rparr>"
    and len: "length rs = length ns" by simp_all
  have "concat (map (\<lambda>seg. map (Free_call (segment_allocator seg)) (recorded_blocks seg))
           ((pools p)[0 := Dynamic (d0\<lparr>ptrs := rs, sizes := ns\<rparr>)]))
        = map (Free_call (d_alloc d0)) rs"
    using concat_map_update_empty [of 0 "pools p"
        "\<lambda>seg. map (Free_call (segment_allocator seg)) (recorded_blocks seg)"
        "Dynamic (d0\<lparr>ptrs := rs, sizes := ns\<rparr>)"] fresh
    by simp
  with p' d0 have 3: "snd (AlignedMemoryPool_free (p', w')) =
        w'\<lparr>calls := calls w' @ map (Free_call (segment_allocator (hd (pools p)))) rs\<rparr>"
    by (simp add: AlignedMemoryPool_free_eq)
  have 4: "list_all (\<lambda>seg. recorded_blocks seg = [] \<and> recorded_sizes seg = [])
        (pools (fst (AlignedMemoryPool_free (p', w'))))"
    by (auto simp: AlignedMemoryPool_free_eq list_all_iff split: segment.splits)
  from len 3 4 show ?thesis by (simp add: DynamicCPUMemoryPool_free_eq)
qed

theorem dynamic_free_releases_each_block_witness:
  "AlignedMemoryPool_allocates [24, 100] (AlignedMemoryPool_free (example_dynamic_pool, example_world))
     = (Inr [4096, 8192], example_dynamic_allocated)
   \<and> calls (snd example_dynamic_allocated)
     = [Free_call (d_alloc example_dynamic_segment) 20480,
        Malloc_call (d_alloc example_dynamic_segment) 24 (Some 4096),
        Malloc_call (d_alloc example_dynamic_segment) 100 (Some 8192)]
   \<and> calls (snd (AlignedMemoryPool_free example_dynamic_allocated))
     = [Free_call (d_alloc example_dynamic_segment) 20480,
        Malloc_call (d_alloc example_dynamic_segment) 24 (Some 4096),
        Malloc_call (d_alloc example_dynamic_segment) 100 (Some 8192),
        Free_call (d_alloc example_dynamic_segment) 4096,
        Free_call (d_alloc example_dynamic_segment) 8192]
   \<and> pools (fst (AlignedMemoryPool_free example_dynamic_allocated)) = [Dynamic example_dynamic_segment]"
proof -
  let ?p = "example_dynamic_pool\<lparr>pools := [Dynamic example_dynamic_segment]\<rparr>"
  let ?w = "example_world\<lparr>calls := [Free_call (d_alloc example_dynamic_segment) 20480]\<rparr>"
  let ?p' = "example_dynamic_pool\<lparr>pools :=
      [Dynamic (example_dynamic_segment\<lparr>ptrs := [4096, 8192], sizes := [24, 100]\<rparr>)]\<rparr>"
  let ?w' = "example_world\<lparr>calls := [Free_call (d_alloc example_dynamic_segment) 20480,
        Malloc_call (d_alloc example_dynamic_segment) 24 (Some 4096),
        Malloc_call (d_alloc example_dynamic_segment) 100 (Some 8192)], avail := [12288]\<rparr>"
  have f: "AlignedMemoryPool_free (example_dynamic_pool, example_world) = (?p, ?w)"
    by (simp add: AlignedMemoryPool_free_eq example_dynamic_pool_def example_dynamic_segment_def
        example_world_def)
  have a: "AlignedMemoryPool_allocates [24, 100] (?p, ?w) = (Inr [4096, 8192], ?p', ?w')"
    by (simp add: AlignedMemoryPool_allocate_def DynamicCPUMemoryPool_allocate_cases
        example_dynamic_pool_def example_world_def example_dynamic_segment_def)
  have e: "example_dynamic_allocated = (?p', ?w')"
    unfolding example_dynamic_allocated_def f a by simp
  have h1: "(dynamic_pool example_dynamic_pool
       \<and> AlignedMemoryPool_free (example_dynamic_pool, example_world) = (?p, ?w))
     \<or> AlignedMemoryPool_ctor ''scratch'' 1024 device_allocator 1024 True example_world
          = (Inr ?p, ?w)"
    using f by (simp add: dynamic_pool_def example_dynamic_pool_def)
  show ?thesis
    using dynamic_free_releases_each_block [OF h1 a]
    unfolding e f a
    by (simp add: example_dynamic_pool_def example_world_def example_dynamic_segment_def
        AlignedMemoryPool_free_eq)
qed


subsection \<open>Bump allocation in a fixed segment\<close>

lemma round_up_align_ge: "n \<le> round_up_align al n"
proof (cases "align al = 0")
  case True
  then show ?thesis by (simp add: round_up_align_def)
next
  case False
  let ?a = "align al"
  have "n + ?a - 1 = ((n + ?a - 1) div ?a) * ?a + (n + ?a - 1) mod ?a" by simp
  moreover have "(n + ?a - 1) mod ?a < ?a" using False by simp
  ultimately have "n \<le> ((n + ?a - 1) div ?a) * ?a" by linarith
  with False show ?thesis by (simp add: round_up_align_def)
qed

lemma rounded_sum_simps [simp]:
  "rounded_sum al [] = 0"
  "rounded_sum al (n # ns) = round_up_align al n + rounded_sum al ns"
  by (simp_all add: rounded_sum_def)

lemma sum_le_rounded_sum: "sum_list ns \<le> rounded_sum al ns"
  by (induction ns) (simp_all add: add_mono round_up_align_ge)

lemma rounded_sum_take_mono: "i \<le> j \<Longrightarrow> rounded_sum al (take i ns) \<le> rounded_sum al (take j ns)"
proof -
  assume "i \<le> j"
  then have "take j ns = take i ns @ take (j - i) (drop i ns)"
    by (metis le_add_diff_inverse take_add)
  then show ?thesis by (simp add: rounded_sum_def)
qed

lemma rounded_sum_take_Suc:
  "i < length ns \<Longrightarrow>
     rounded_sum al (take (Suc i) ns) = rounded_sum al (take i ns) + round_up_align al (ns ! i)"
  by (simp add: rounded_sum_def take_Suc_conv_app_nth)

lemma InternalMemoryPool_allocates_from:
  "used s + rounded_sum (alloc s) ns \<le> capacity s \<Longrightarrow>
     InternalMemoryPool_allocates ns (s, w) =
       (Inr (map (\<lambda>i. mem s + (used s + offset_of (alloc s) ns i)) [0 ..< length ns]),
        s\<lparr>used := used s + rounded_sum (alloc s) ns\<rparr>, w)"
proof (induction ns arbitrary: s)
  case Nil
  then show ?case by simp
next
  case (Cons n ns)
  let ?s1 = "s\<lparr>used := used s + round_up_align (alloc s) n\<rparr>"
  from Cons.prems round_up_align_ge [of n "alloc s"] have fit: "\<not> capacity s < used s + n"
    by simp
  then have a: "InternalMemoryPool_allocate n (s, w) = (Inr (mem s + used s), ?s1, w)"
    by (simp add: InternalMemoryPool_allocate_def)
  from Cons.prems have "used ?s1 + rounded_sum (alloc ?s1) ns \<le> capacity ?s1" by simp
  from Cons.IH [OF this]
  have b: "InternalMemoryPool_allocates ns (?s1, w) =
       (Inr (map (\<lambda>i. mem s + (used s + round_up_align (alloc s) n + offset_of (alloc s) ns i))
               [0 ..< length ns]),
        s\<lparr>used := used s + round_up_align (alloc s) n + rounded_sum (alloc s) ns\<rparr>, w)"
    by simp
  have c: "map (\<lambda>i. mem s + (used s + offset_of (alloc s) (n # ns) i)) [0 ..< length (n # ns)]
      = (mem s + used s) #
        map (\<lambda>i. mem s + (used s + round_up_align (alloc s) n + offset_of (alloc s) ns i))
          [0 ..< length ns]"
    by (simp add: upt_conv_Cons map_Suc_upt [symmetric] offset_of_def del: upt_Suc)
  from a b c show ?case by (simp add: add.assoc)
qed

text \<open>
  C6. On a fixed segment that is empty (\<open>used = 0\<close>), a run of \<open>allocate\<close> calls whose
  alignment-rounded sizes sum to at most the capacity succeeds; the \<open>i\<close>-th pointer
  returned is the buffer base plus the alignment-rounded sum of the sizes of the
  requests before it, the cursor ends at the alignment-rounded sum of all sizes, and the
  byte ranges of two different requests are disjoint.
\<close>

theorem fixed_allocations_offsets:
  assumes "used s = 0" and "rounded_sum (alloc s) ns \<le> capacity s"
  shows "InternalMemoryPool_allocates ns (s, w) =
       (Inr (map (\<lambda>i. mem s + offset_of (alloc s) ns i) [0 ..< length ns]),
        s\<lparr>used := rounded_sum (alloc s) ns\<rparr>, w)
    \<and> (\<forall>i j. i < j \<and> j < length ns \<longrightarrow>
          {mem s + offset_of (alloc s) ns i ..< mem s + offset_of (alloc s) ns i + ns ! i}
          \<inter> {mem s + offset_of (alloc s) ns j ..< mem s + offset_of (alloc s) ns j + ns ! j} = {})"
proof -
  have 1: "InternalMemoryPool_allocates ns (s, w) =
       (Inr (map (\<lambda>i. mem s + offset_of (alloc s) ns i) [0 ..< length ns]),
        s\<lparr>used := rounded_sum (alloc s) ns\<rparr>, w)"
    using InternalMemoryPool_allocates_from [of s ns w] assms by simp
  have 2: "{mem s + offset_of (alloc s) ns i ..< mem s + offset_of (alloc s) ns i + ns ! i}
          \<inter> {mem s + offset_of (alloc s) ns j ..< mem s + offset_of (alloc s) ns j + ns ! j} = {}"
    if "i < j" "j < length ns" for i j
  proof -
    from that have "offset_of (alloc s) ns (Suc i) =
        offset_of (alloc s) ns i + round_up_align (alloc s) (ns ! i)"
      by (simp add: offset_of_def rounded_sum_take_Suc)
    moreover from that have "offset_of (alloc s) ns (Suc i) \<le> offset_of (alloc s) ns j"
      by (simp add: offset_of_def rounded_sum_take_mono)
    ultimately have "offset_of (alloc s) ns i + ns ! i \<le> offset_of (alloc s) ns j"
      using round_up_align_ge [of "ns ! i" "alloc s"] by linarith
    then show ?thesis by auto
  qed
  from 1 2 show ?thesis by blast
qed

theorem fixed_allocations_offsets_witness:
  "InternalMemoryPool_allocates [500, 1, 32, 100] (example_segment\<lparr>used := 0\<rparr>, example_world) =
       (Inr [4096, 4608, 4640, 4672], example_segment\<lparr>used := 704\<rparr>, example_world)
   \<and> {4096 + 512 ..< 4096 + 512 + 1} \<inter> {4096 + 544 ..< 4096 + 544 + (32::nat)} = {}"
proof -
  have h1: "used (example_segment\<lparr>used := 0\<rparr>) = 0" by simp
  have h2: "rounded_sum (alloc (example_segment\<lparr>used := 0\<rparr>)) [500, 1, 32, 100]
      \<le> capacity (example_segment\<lparr>used := 0\<rparr>)"
    by (simp add: example_defs round_up_align_def)
  have o: "map (\<lambda>i. mem (example_segment\<lparr>used := 0\<rparr>)
              + offset_of (alloc (example_segment\<lparr>used := 0\<rparr>)) [500, 1, 32, 100] i) [0 ..< 4]
      = [4096, 4608, 4640, 4672]"
    by (simp add: example_defs round_up_align_def offset_of_def upt_conv_Cons take_Suc_Cons)
  have "1 < (2::nat) \<and> 2 < length [500, 1, 32, 100::nat]" by simp
  with fixed_allocations_offsets [OF h1 h2, of example_world] o show ?thesis
    by (simp add: example_defs round_up_align_def offset_of_def)
qed


subsection \<open>The pool's invariant\<close>

lemma InternalMemoryPool_ctor_cases:
  "InternalMemoryPool_ctor nm cp al w =
     (case avail w of
        [] \<Rightarrow> (Inl AllocationFailure, w\<lparr>calls := calls w @ [Malloc_call al cp None]\<rparr>)
      | b # bs \<Rightarrow>
          (Inr \<lparr>base_used = None, alloc = al, name = nm, capacity = cp, mem = b, used = 0\<rparr>,
           w\<lparr>bytes := (\<lambda>x. if b \<le> x \<and> x < b + cp then 0 else bytes w x),
             calls := calls w @ [Malloc_call al cp (Some b), Zero_call al b cp],
             avail := bs\<rparr>))"
  by (cases "avail w")
     (simp_all add: InternalMemoryPool_ctor_def InternalMemoryPool_sys_alloc_def
        InternalMemoryPool_zero_all_def MemAllocator_malloc_def MemAllocator_zero_def
        cong: if_cong)

lemma new_segment_variant:
  "new_segment dyn nm sz al w = (Inr seg, w') \<Longrightarrow> is_Dynamic seg = dyn"
  by (auto simp: new_segment_def InternalMemoryPool_ctor_cases DynamicCPUMemoryPool_ctor_eq
      split: if_splits list.splits)

lemma segment_allocate_variant:
  "segment_allocate n (seg, w) = (r, seg', w') \<Longrightarrow> is_Dynamic seg' = is_Dynamic seg"
  by (cases seg) (auto split: prod.splits)

lemma pool_inv_ctor:
  "AlignedMemoryPool_ctor nm cp al eu dyn w = (Inr p, w') \<Longrightarrow> pool_inv p"
  by (auto simp: AlignedMemoryPool_ctor_def pool_inv_def split: prod.splits sum.splits
      dest: new_segment_variant)

lemma pool_inv_allocate:
  assumes "pool_inv p" and "AlignedMemoryPool_allocate n (p, w) = (r, p', w')"
  shows "pool_inv p'"
proof -
  from assms(1) have c: "current p < length (pools p)"
    and v: "\<forall>seg \<in> set (pools p). is_Dynamic seg = dynamic p"
    by (simp_all add: pool_inv_def list_all_iff)
  from c have d: "drop (current p) (pools p) = pools p ! current p # drop (Suc (current p)) (pools p)"
    by (rule drop_active)
  let ?seg = "pools p ! current p"
  from c v have a: "is_Dynamic ?seg = dynamic p" by simp
  show ?thesis
  proof (cases "can_satisfy ?seg n")
    case True
    obtain r1 seg1 w1 where s: "segment_allocate n (?seg, w) = (r1, seg1, w1)"
      by (cases "segment_allocate n (?seg, w)")
    with assms(2) d True have p': "p' = p\<lparr>pools := (pools p)[current p := seg1]\<rparr>"
      by (simp add: AlignedMemoryPool_allocate_def)
    from segment_allocate_variant [OF s] a have "is_Dynamic seg1 = dynamic p" by simp
    with p' c v show ?thesis
      by (auto simp: pool_inv_def list_all_iff dest: set_update_subset_insert [THEN subsetD])
  next
    case False
    let ?new = "new_segment (dynamic p) (pool_name p)
                  (round_up_align (pool_a p) (max n (expanding_unit p))) (pool_a p) w"
    show ?thesis
    proof (cases "fst ?new")
      case (Inl e)
      with assms(2) d False have "p' = p"
        by (cases ?new) (simp add: AlignedMemoryPool_allocate_def)
      with assms(1) show ?thesis by simp
    next
      case (Inr new)
      then obtain w1 where n: "?new = (Inr new, w1)" by (cases ?new) simp
      obtain r2 new2 w2 where s: "segment_allocate n (new, w1) = (r2, new2, w2)"
        by (cases "segment_allocate n (new, w1)")
      from assms(2) d False n s
      have p': "p' = p\<lparr>pools := pools p @ [new2], current := length (pools p)\<rparr>"
        by (simp add: AlignedMemoryPool_allocate_def)
      from new_segment_variant [OF n] segment_allocate_variant [OF s]
      have "is_Dynamic new2 = dynamic p" by simp
      with p' v show ?thesis by (auto simp: pool_inv_def list_all_iff)
    qed
  qed
qed

lemma pool_inv_free:
  "pool_inv p \<Longrightarrow> pool_inv (fst (AlignedMemoryPool_free (p, w)))"
  by (auto simp: pool_inv_def AlignedMemoryPool_free_eq list_all_iff split: segment.splits)

subsection \<open>Growth\<close>

lemma not_can_satisfy_Fixed: "\<not> can_satisfy seg n \<Longrightarrow> \<not> is_Dynamic seg"
  by (cases seg) simp_all

lemma AlignedMemoryPool_allocate_grow:
  assumes "pool_inv p" and "\<not> can_satisfy (pools p ! current p) n"
  shows "AlignedMemoryPool_allocate n (p, w) =
     (case avail w of
        [] \<Rightarrow>
          (Inl AllocationFailure, p,
           w\<lparr>calls := calls w @
               [Malloc_call (pool_a p) (round_up_align (pool_a p) (max n (expanding_unit p))) None]\<rparr>)
      | b # bs \<Rightarrow>
          (Inr b,
           p\<lparr>pools := pools p @
                [Fixed \<lparr>base_used = None, alloc = pool_a p, name = pool_name p,
                        capacity = round_up_align (pool_a p) (max n (expanding_unit p)),
                        mem = b, used = round_up_align (pool_a p) n\<rparr>],
             current := length (pools p)\<rparr>,
           w\<lparr>bytes := (\<lambda>x. if b \<le> x \<and>
                               x < b + round_up_align (pool_a p) (max n (expanding_unit p))
                             then 0 else bytes w x),
             calls := calls w @
               [Malloc_call (pool_a p) (round_up_align (pool_a p) (max n (expanding_unit p))) (Some b),
                Zero_call (pool_a p) b (round_up_align (pool_a p) (max n (expanding_unit p)))],
             avail := bs\<rparr>))"
proof -
  from assms(1) have c: "current p < length (pools p)"
    and v: "\<forall>seg \<in> set (pools p). is_Dynamic seg = dynamic p"
    by (simp_all add: pool_inv_def list_all_iff)
  from c have d: "drop (current p) (pools p) = pools p ! current p # drop (Suc (current p)) (pools p)"
    by (rule drop_active)
  from c v not_can_satisfy_Fixed [OF assms(2)] have nd: "\<not> dynamic p" by auto
  have fit: "n \<le> round_up_align (pool_a p) (max n (expanding_unit p))"
    using round_up_align_ge [of "max n (expanding_unit p)" "pool_a p"] by simp
  show ?thesis
    using d assms(2) nd fit
    by (cases "avail w")
       (simp_all add: AlignedMemoryPool_allocate_def new_segment_def InternalMemoryPool_ctor_cases
          InternalMemoryPool_allocate_def)
qed


subsection \<open>What every reachable pool state satisfies\<close>

text \<open>
  The constructor establishes \<open>pool_inv\<close> (\<open>pool_inv_ctor\<close>) and every operation keeps
  it, so it holds after every run from a constructed pool. A pool that starts with a
  fixed segment keeps that segment first, with its buffer and capacity.
\<close>

lemma pool_inv_set_used: "pool_inv p \<Longrightarrow> pool_inv (AlignedMemoryPool_set_used s p)"
proof -
  assume a: "pool_inv p"
  then have v: "\<forall>seg \<in> set (pools p). is_Dynamic seg = dynamic p"
    by (simp add: pool_inv_def list_all_iff)
  show ?thesis
  proof (cases "drop (current p) (pools p)")
    case Nil
    with a show ?thesis by (simp add: AlignedMemoryPool_set_used_def)
  next
    case (Cons seg rest)
    then have "seg \<in> set (pools p)" by (metis in_set_dropD list.set_intros(1))
    with v have d: "is_Dynamic seg = dynamic p" by simp
    show ?thesis
    proof (cases seg)
      case (Fixed f)
      with a v d Cons show ?thesis
        by (auto simp: AlignedMemoryPool_set_used_def pool_inv_def list_all_iff
            dest: set_update_subset_insert [THEN subsetD])
    next
      case (Dynamic d)
      with a Cons show ?thesis by (simp add: AlignedMemoryPool_set_used_def)
    qed
  qed
qed

lemma AlignedMemoryPool_zero_allocated_memory_fst:
  "fst (AlignedMemoryPool_zero_allocated_memory (p, w)) = p"
  using zero_segments_fst [of "pools p" w]
  by (auto simp add: AlignedMemoryPool_zero_allocated_memory_def split: prod.splits)

lemma pool_inv_step:
  assumes "pool_inv p" shows "pool_inv (fst (AlignedMemoryPool_step x (p, w)))"
proof (cases x)
  case (Pool_allocate n)
  obtain r p' w' where a: "AlignedMemoryPool_allocate n (p, w) = (r, p', w')"
    by (cases "AlignedMemoryPool_allocate n (p, w)")
  from pool_inv_allocate [OF assms a] a Pool_allocate show ?thesis by simp
next
  case Pool_free
  with pool_inv_free [OF assms] show ?thesis by simp
next
  case (Pool_set_used s)
  with pool_inv_set_used [OF assms] show ?thesis by simp
next
  case Pool_zero_allocated_memory
  with assms show ?thesis by (simp add: AlignedMemoryPool_zero_allocated_memory_fst)
qed

lemma pool_inv_run: "pool_inv p \<Longrightarrow> pool_inv (fst (AlignedMemoryPool_run xs (p, w)))"
proof (induction xs arbitrary: p w)
  case Nil
  then show ?case by simp
next
  case (Cons x xs)
  obtain p1 w1 where s: "AlignedMemoryPool_step x (p, w) = (p1, w1)"
    by (cases "AlignedMemoryPool_step x (p, w)")
  with pool_inv_step [OF Cons.prems, of x w] have "pool_inv p1" by simp
  from Cons.IH [OF this, of w1] s show ?case by simp
qed

lemma first_segment_step:
  assumes "pools p = Fixed s # rest" and "AlignedMemoryPool_step x (p, w) = (p', w')"
  shows "\<exists>s' rest'. pools p' = Fixed s' # rest' \<and> capacity s' = capacity s \<and> mem s' = mem s"
proof (cases x)
  case (Pool_allocate n)
  show ?thesis
  proof (cases "current p")
    case 0
    with assms Pool_allocate show ?thesis
      by (auto simp: AlignedMemoryPool_allocate_def InternalMemoryPool_allocate_def
          split: if_splits prod.splits sum.splits)
  next
    case (Suc c)
    with assms Pool_allocate show ?thesis
      by (auto simp: AlignedMemoryPool_allocate_def split: list.splits if_splits prod.splits sum.splits)
  qed
next
  case Pool_free
  with assms show ?thesis by (auto simp: AlignedMemoryPool_free_eq)
next
  case (Pool_set_used m)
  show ?thesis
  proof (cases "current p")
    case 0
    with assms Pool_set_used show ?thesis by (auto simp: AlignedMemoryPool_set_used_def)
  next
    case (Suc c)
    with assms Pool_set_used show ?thesis
      by (auto simp: AlignedMemoryPool_set_used_def split: list.splits segment.splits)
  qed
next
  case Pool_zero_allocated_memory
  with assms AlignedMemoryPool_zero_allocated_memory_fst [of p w] show ?thesis by auto
qed

lemma first_segment_run:
  assumes "pools p = Fixed s # rest" and "AlignedMemoryPool_run xs (p, w) = (p', w')"
  shows "\<exists>s' rest'. pools p' = Fixed s' # rest' \<and> capacity s' = capacity s \<and> mem s' = mem s"
  using assms
proof (induction xs arbitrary: p w s rest)
  case Nil
  then show ?case by simp
next
  case (Cons x xs)
  obtain p1 w1 where st: "AlignedMemoryPool_step x (p, w) = (p1, w1)"
    by (cases "AlignedMemoryPool_step x (p, w)")
  from first_segment_step [OF Cons.prems(1) st] obtain s1 rest1 where
    a: "pools p1 = Fixed s1 # rest1" "capacity s1 = capacity s" "mem s1 = mem s" by blast
  from Cons.prems(2) st have "AlignedMemoryPool_run xs (p1, w1) = (p', w')" by simp
  from Cons.IH [OF a(1) this] a(2,3) show ?case by simp
qed

text \<open>
  C1 (amended). When the active segment of a pool cannot satisfy \<open>n\<close>, \<open>allocate(n)\<close>
  asks the pool's allocator for one buffer of \<open>max(n, expanding_unit)\<close> bytes rounded to
  the alignment granularity. If the backend is exhausted the call ends in
  \<open>AllocationFailure\<close> and the pool is as before. Otherwise exactly one fixed segment of
  that size is appended, \<open>current\<close> becomes its index, and the request is served at
  offset 0 of it. In particular, for a pool constructed with initial capacity 1024 and
  expanding unit 1024, \<open>allocate(500)\<close> returns offset 0 of segment 0, the next
  \<open>allocate(600)\<close> returns offset 0 of a new segment 1 whose size is 1024 rounded to the
  granularity, and \<open>used()\<close> is then the sum of 500 and 600, each rounded to the
  granularity.
\<close>

theorem growth_appends_one_segment:
  assumes "pool_inv p" and "\<not> can_satisfy (pools p ! current p) n"
  shows "AlignedMemoryPool_allocate n (p, w) =
     (case avail w of
        [] \<Rightarrow>
          (Inl AllocationFailure, p,
           w\<lparr>calls := calls w @
               [Malloc_call (pool_a p) (round_up_align (pool_a p) (max n (expanding_unit p))) None]\<rparr>)
      | b # bs \<Rightarrow>
          (Inr b,
           p\<lparr>pools := pools p @
                [Fixed \<lparr>base_used = None, alloc = pool_a p, name = pool_name p,
                        capacity = round_up_align (pool_a p) (max n (expanding_unit p)),
                        mem = b, used = round_up_align (pool_a p) n\<rparr>],
             current := length (pools p)\<rparr>,
           w\<lparr>bytes := (\<lambda>x. if b \<le> x \<and>
                               x < b + round_up_align (pool_a p) (max n (expanding_unit p))
                             then 0 else bytes w x),
             calls := calls w @
               [Malloc_call (pool_a p) (round_up_align (pool_a p) (max n (expanding_unit p))) (Some b),
                Zero_call (pool_a p) b (round_up_align (pool_a p) (max n (expanding_unit p)))],
             avail := bs\<rparr>))
   \<and> (AlignedMemoryPool_ctor nm 1024 al 1024 False u = (Inr q, u') \<and> avail u = ba # bb # bc
        \<longrightarrow> fst (AlignedMemoryPool_allocate 500 (q, u')) = Inr ba
          \<and> segment_base (pools q ! 0) = Some ba
          \<and> fst (AlignedMemoryPool_allocate 600 (snd (AlignedMemoryPool_allocate 500 (q, u'))))
              = Inr bb
          \<and> pools (fst (snd (AlignedMemoryPool_allocate 600
                (snd (AlignedMemoryPool_allocate 500 (q, u'))))))
              = [Fixed \<lparr>base_used = None, alloc = al, name = nm, capacity = 1024, mem = ba,
                        used = round_up_align al 500\<rparr>,
                 Fixed \<lparr>base_used = None, alloc = al, name = nm,
                        capacity = round_up_align al 1024, mem = bb,
                        used = round_up_align al 600\<rparr>]
          \<and> current (fst (snd (AlignedMemoryPool_allocate 600
                (snd (AlignedMemoryPool_allocate 500 (q, u')))))) = 1
          \<and> AlignedMemoryPool_used (fst (snd (AlignedMemoryPool_allocate 600
                (snd (AlignedMemoryPool_allocate 500 (q, u'))))))
              = round_up_align al 500 + round_up_align al 600)"
proof -
  have ex: "fst (AlignedMemoryPool_allocate 500 (q, u')) = Inr ba
          \<and> segment_base (pools q ! 0) = Some ba
          \<and> fst (AlignedMemoryPool_allocate 600 (snd (AlignedMemoryPool_allocate 500 (q, u'))))
              = Inr bb
          \<and> pools (fst (snd (AlignedMemoryPool_allocate 600
                (snd (AlignedMemoryPool_allocate 500 (q, u'))))))
              = [Fixed \<lparr>base_used = None, alloc = al, name = nm, capacity = 1024, mem = ba,
                        used = round_up_align al 500\<rparr>,
                 Fixed \<lparr>base_used = None, alloc = al, name = nm,
                        capacity = round_up_align al 1024, mem = bb,
                        used = round_up_align al 600\<rparr>]
          \<and> current (fst (snd (AlignedMemoryPool_allocate 600
                (snd (AlignedMemoryPool_allocate 500 (q, u')))))) = 1
          \<and> AlignedMemoryPool_used (fst (snd (AlignedMemoryPool_allocate 600
                (snd (AlignedMemoryPool_allocate 500 (q, u'))))))
              = round_up_align al 500 + round_up_align al 600"
    if c: "AlignedMemoryPool_ctor nm 1024 al 1024 False u = (Inr q, u')"
      and av: "avail u = ba # bb # bc"
  proof -
    let ?s = "\<lparr>base_used = None, alloc = al, name = nm, capacity = 1024, mem = ba, used = 0\<rparr>"
    from c av have q: "q = \<lparr>pools = [Fixed ?s], pool_a = al, pool_name = nm, cap = 1024,
          current = 0, expanding_unit = 1024, dynamic = False\<rparr>"
      and u': "avail u' = bb # bc"
      by (auto simp: AlignedMemoryPool_ctor_def new_segment_def InternalMemoryPool_ctor_cases)
    let ?q1 = "q\<lparr>pools := [Fixed (?s\<lparr>used := round_up_align al 500\<rparr>)]\<rparr>"
    have a1: "AlignedMemoryPool_allocate 500 (q, u') = (Inr ba, ?q1, u')"
      by (simp add: q AlignedMemoryPool_allocate_def InternalMemoryPool_allocate_def)
    have inv: "pool_inv ?q1" by (simp add: q pool_inv_def)
    have "500 \<le> round_up_align al 500" by (rule round_up_align_ge)
    then have full: "\<not> can_satisfy (pools ?q1 ! current ?q1) 600" by (simp add: q)
    have m: "max 600 (expanding_unit ?q1) = 1024" by (simp add: q)
    from AlignedMemoryPool_allocate_grow [OF inv full, of u'] u' m
    have a2: "AlignedMemoryPool_allocate 600 (?q1, u') =
       (Inr bb,
        ?q1\<lparr>pools := pools ?q1 @
                [Fixed \<lparr>base_used = None, alloc = pool_a ?q1, name = pool_name ?q1,
                        capacity = round_up_align (pool_a ?q1) 1024,
                        mem = bb, used = round_up_align (pool_a ?q1) 600\<rparr>],
             current := length (pools ?q1)\<rparr>,
        u'\<lparr>bytes := (\<lambda>x. if bb \<le> x \<and> x < bb + round_up_align (pool_a ?q1) 1024
                             then 0 else bytes u' x),
             calls := calls u' @
               [Malloc_call (pool_a ?q1) (round_up_align (pool_a ?q1) 1024) (Some bb),
                Zero_call (pool_a ?q1) bb (round_up_align (pool_a ?q1) 1024)],
             avail := bc\<rparr>)"
      by simp
    show ?thesis
      unfolding a1 snd_conv a2
      by (simp add: q AlignedMemoryPool_used_def)
  qed
  from AlignedMemoryPool_allocate_grow [OF assms, of w] ex show ?thesis by blast
qed

theorem growth_appends_one_segment_witness:
  "fst (AlignedMemoryPool_allocate 600 (example_pool, example_fresh_world)) = Inr 8192
   \<and> pools (fst (snd (AlignedMemoryPool_allocate 600 (example_pool, example_fresh_world))))
       = [Fixed example_segment,
          Fixed \<lparr>base_used = None, alloc = host_allocator, name = ''scratch'', capacity = 1024,
                 mem = 8192, used = 608\<rparr>]
   \<and> current (fst (snd (AlignedMemoryPool_allocate 600 (example_pool, example_fresh_world)))) = 1
   \<and> calls (snd (snd (AlignedMemoryPool_allocate 600 (example_pool, example_fresh_world))))
       = [Malloc_call host_allocator 1024 (Some 4096), Zero_call host_allocator 4096 1024,
          Malloc_call host_allocator 1024 (Some 8192), Zero_call host_allocator 8192 1024]
   \<and> AlignedMemoryPool_used (fst (snd (AlignedMemoryPool_allocate 600
        (snd (AlignedMemoryPool_allocate 500
           (example_fresh_pool\<lparr>pools := [Fixed (example_segment\<lparr>alloc := word_allocator, used := 0\<rparr>)],
              pool_a := word_allocator\<rparr>,
            snd (AlignedMemoryPool_ctor ''scratch'' 1024 word_allocator 1024 False example_world)))))))
       = 1100"
proof -
  have h1: "pool_inv example_pool"
    by (simp add: pool_inv_def example_pool_def)
  have h2: "\<not> can_satisfy (pools example_pool ! current example_pool) 600"
    by (simp add: example_pool_def example_segment_def)
  have h3: "AlignedMemoryPool_ctor ''scratch'' 1024 word_allocator 1024 False example_world
      = (Inr (example_fresh_pool\<lparr>pools := [Fixed (example_segment\<lparr>alloc := word_allocator, used := 0\<rparr>)],
              pool_a := word_allocator\<rparr>),
         snd (AlignedMemoryPool_ctor ''scratch'' 1024 word_allocator 1024 False example_world))
     \<and> avail example_world = 4096 # 8192 # [12288]"
    by (simp add: AlignedMemoryPool_ctor_def new_segment_def InternalMemoryPool_ctor_cases
        example_fresh_pool_def example_segment_def example_world_def)
  have r: "round_up_align word_allocator 500 = 500" "round_up_align word_allocator 600 = 600"
      "round_up_align host_allocator 600 = 608" "round_up_align host_allocator 1024 = 1024"
    by (simp_all add: round_up_align_def word_allocator_def host_allocator_def)
  from growth_appends_one_segment [OF h1 h2, where w = example_fresh_world
      and nm = "''scratch''" and al = word_allocator and u = example_world
      and q = "example_fresh_pool\<lparr>pools := [Fixed (example_segment\<lparr>alloc := word_allocator, used := 0\<rparr>)],
              pool_a := word_allocator\<rparr>"
      and u' = "snd (AlignedMemoryPool_ctor ''scratch'' 1024 word_allocator 1024 False example_world)"
      and ba = 4096 and bb = 8192 and bc = "[12288]"] h3 r
  show ?thesis
    by (simp add: example_pool_def example_fresh_world_def)
qed

theorem growth_example_counterexample:
  "AlignedMemoryPool_ctor ''scratch'' 1024 host_allocator 1024 False example_world
     = (Inr example_fresh_pool, example_fresh_world)
   \<and> fst (AlignedMemoryPool_allocate 500 (example_fresh_pool, example_fresh_world)) = Inr 4096
   \<and> fst (AlignedMemoryPool_allocate 600
        (snd (AlignedMemoryPool_allocate 500 (example_fresh_pool, example_fresh_world)))) = Inr 8192
   \<and> AlignedMemoryPool_used (fst (snd (AlignedMemoryPool_allocate 600
        (snd (AlignedMemoryPool_allocate 500 (example_fresh_pool, example_fresh_world)))))) = 1120
   \<and> AlignedMemoryPool_used (fst (snd (AlignedMemoryPool_allocate 600
        (snd (AlignedMemoryPool_allocate 500 (example_fresh_pool, example_fresh_world)))))) \<noteq> 1100"
proof -
  have c: "AlignedMemoryPool_ctor ''scratch'' 1024 host_allocator 1024 False example_world
     = (Inr example_fresh_pool, example_fresh_world)"
    by (simp add: AlignedMemoryPool_ctor_def new_segment_def InternalMemoryPool_ctor_cases
        example_fresh_pool_def example_fresh_world_def example_segment_def example_world_def
        cong: if_cong)
  have r: "round_up_align host_allocator 500 = 512" "round_up_align host_allocator 600 = 608"
      "round_up_align host_allocator 1024 = 1024"
    by (simp_all add: round_up_align_def host_allocator_def)
  have a1: "AlignedMemoryPool_allocate 500 (example_fresh_pool, example_fresh_world)
      = (Inr 4096, example_fresh_pool\<lparr>pools := [Fixed example_segment]\<rparr>, example_fresh_world)"
    by (simp add: AlignedMemoryPool_allocate_def InternalMemoryPool_allocate_def
        example_fresh_pool_def example_segment_def r)
  have a2: "fst (AlignedMemoryPool_allocate 600
        (example_fresh_pool\<lparr>pools := [Fixed example_segment]\<rparr>, example_fresh_world)) = Inr 8192
     \<and> AlignedMemoryPool_used (fst (snd (AlignedMemoryPool_allocate 600
        (example_fresh_pool\<lparr>pools := [Fixed example_segment]\<rparr>, example_fresh_world)))) = 1120"
    by (simp add: AlignedMemoryPool_allocate_def InternalMemoryPool_allocate_def
        new_segment_def InternalMemoryPool_ctor_cases AlignedMemoryPool_used_def
        example_fresh_pool_def example_segment_def example_fresh_world_def r)
  from c a1 a2 show ?thesis by simp
qed


subsection \<open>Reset and reuse\<close>

lemma segment_free_fst:
  "fst (segment_free (seg, w)) =
     (case seg of Fixed s \<Rightarrow> Fixed (s\<lparr>used := 0\<rparr>) | Dynamic d \<Rightarrow> Dynamic (d\<lparr>ptrs := [], sizes := []\<rparr>))"
  by (simp add: segment_free_eq)

text \<open>
  C3 (amended). After the pool's \<open>free\<close>, \<open>current\<close> is 0, every segment is what its own
  \<open>free\<close> leaves of it, every segment's \<open>used\<close> is 0 and so is \<open>used()\<close>. If the first
  segment is a fixed segment, the next \<open>allocate(n)\<close> with \<open>n\<close> at most that segment's
  capacity returns the base address of the first segment. In particular, in every state
  reached from a pool constructed with \<open>dynamic = false\<close> and initial capacity \<open>c\<close>, the
  next \<open>allocate(n)\<close> after \<open>free\<close> with \<open>n\<close> at most \<open>c\<close> returns the address of the
  buffer that the constructor acquired for the first segment.
\<close>

theorem free_resets_pool:
  "current (fst (AlignedMemoryPool_free (p, w))) = 0
   \<and> AlignedMemoryPool_used (fst (AlignedMemoryPool_free (p, w))) = 0
   \<and> pools (fst (AlignedMemoryPool_free (p, w))) = map (\<lambda>seg. fst (segment_free (seg, w))) (pools p)
   \<and> list_all (\<lambda>seg. segment_used seg = 0) (pools (fst (AlignedMemoryPool_free (p, w))))
   \<and> (pools p = Fixed s # rest \<and> n \<le> capacity s \<longrightarrow>
        fst (AlignedMemoryPool_allocate n (AlignedMemoryPool_free (p, w))) = Inr (mem s)
        \<and> segment_base (hd (pools (fst (AlignedMemoryPool_free (p, w))))) = Some (mem s))
   \<and> (AlignedMemoryPool_ctor nm c al eu False u = (Inr q, u') \<and> avail u = b # bs \<and> n \<le> c \<longrightarrow>
        segment_base (hd (pools q)) = Some b
        \<and> fst (AlignedMemoryPool_allocate n
                 (AlignedMemoryPool_free (AlignedMemoryPool_run xs (q, u')))) = Inr b
        \<and> segment_base (hd (pools (fst
                 (AlignedMemoryPool_free (AlignedMemoryPool_run xs (q, u')))))) = Some b)"
proof -
  let ?clear = "\<lambda>seg. case seg of Fixed s \<Rightarrow> Fixed (s\<lparr>used := 0\<rparr>)
                  | Dynamic d \<Rightarrow> Dynamic (d\<lparr>ptrs := [], sizes := []\<rparr>)"
  have z: "segment_used (?clear seg) = 0" for seg
    by (cases seg) simp_all
  have 1: "current (fst (AlignedMemoryPool_free (p, w))) = 0"
    by (simp add: AlignedMemoryPool_free_eq)
  have 2: "AlignedMemoryPool_used (fst (AlignedMemoryPool_free (p, w))) = 0"
    by (cases "pools p") (simp_all add: AlignedMemoryPool_free_eq AlignedMemoryPool_used_def z)
  have 3: "pools (fst (AlignedMemoryPool_free (p, w))) = map (\<lambda>seg. fst (segment_free (seg, w))) (pools p)"
    by (simp add: AlignedMemoryPool_free_eq segment_free_fst)
  have 4: "list_all (\<lambda>seg. segment_used seg = 0) (pools (fst (AlignedMemoryPool_free (p, w))))"
    by (simp add: AlignedMemoryPool_free_eq list_all_iff z)
  have 5: "fst (AlignedMemoryPool_allocate n (AlignedMemoryPool_free (p, w))) = Inr (mem s)
        \<and> segment_base (hd (pools (fst (AlignedMemoryPool_free (p, w))))) = Some (mem s)"
    if "pools p = Fixed s # rest" "n \<le> capacity s" for p w s rest
    using that
    by (simp add: AlignedMemoryPool_free_eq AlignedMemoryPool_allocate_def
        InternalMemoryPool_allocate_def)
  have 6: "segment_base (hd (pools q)) = Some b
        \<and> fst (AlignedMemoryPool_allocate n
                 (AlignedMemoryPool_free (AlignedMemoryPool_run xs (q, u')))) = Inr b
        \<and> segment_base (hd (pools (fst
                 (AlignedMemoryPool_free (AlignedMemoryPool_run xs (q, u')))))) = Some b"
    if c: "AlignedMemoryPool_ctor nm c al eu False u = (Inr q, u')" and av: "avail u = b # bs"
      and n: "n \<le> c"
  proof -
    let ?s = "\<lparr>base_used = None, alloc = al, name = nm, capacity = c, mem = b, used = 0\<rparr>"
    from c av have q: "pools q = Fixed ?s # []"
      by (auto simp: AlignedMemoryPool_ctor_def new_segment_def InternalMemoryPool_ctor_cases)
    obtain p1 w1 where r: "AlignedMemoryPool_run xs (q, u') = (p1, w1)"
      by (cases "AlignedMemoryPool_run xs (q, u')")
    from first_segment_run [OF q r] obtain s1 rest1 where
      a: "pools p1 = Fixed s1 # rest1" "capacity s1 = c" "mem s1 = b" by auto
    from 5 [OF a(1), of w1] n a(2,3) r q show ?thesis by simp
  qed
  from 1 2 3 4 5 [of p s rest w] 6 show ?thesis by blast
qed

theorem free_resets_pool_witness:
  "current (fst (AlignedMemoryPool_free (example_pool, example_fresh_world))) = 0
   \<and> AlignedMemoryPool_used example_pool = 512
   \<and> AlignedMemoryPool_used (fst (AlignedMemoryPool_free (example_pool, example_fresh_world))) = 0
   \<and> fst (AlignedMemoryPool_allocate 1024 (AlignedMemoryPool_free (example_pool, example_fresh_world)))
       = Inr 4096
   \<and> segment_base (hd (pools (fst (AlignedMemoryPool_free (example_pool, example_fresh_world)))))
       = Some 4096
   \<and> fst (AlignedMemoryPool_allocate 1024 (AlignedMemoryPool_free
        (AlignedMemoryPool_run [Pool_allocate 500, Pool_allocate 600, Pool_zero_allocated_memory]
           (example_fresh_pool, example_fresh_world)))) = Inr 4096"
proof -
  have h: "pools example_pool = Fixed example_segment # [] \<and> 1024 \<le> capacity example_segment"
    by (simp add: example_pool_def example_segment_def)
  have c: "AlignedMemoryPool_ctor ''scratch'' 1024 host_allocator 1024 False example_world
       = (Inr example_fresh_pool, example_fresh_world)
     \<and> avail example_world = 4096 # [8192, 12288] \<and> (1024::nat) \<le> 1024"
    by (simp add: AlignedMemoryPool_ctor_def new_segment_def InternalMemoryPool_ctor_cases
        example_fresh_pool_def example_fresh_world_def example_segment_def example_world_def
        cong: if_cong)
  note t = free_resets_pool [where p = example_pool and w = example_fresh_world
      and s = example_segment and rest = "[]" and n = 1024 and nm = "''scratch''" and c = 1024
      and al = host_allocator and eu = 1024 and u = example_world and q = example_fresh_pool
      and u' = example_fresh_world and b = 4096 and bs = "[8192, 12288]"
      and xs = "[Pool_allocate 500, Pool_allocate 600, Pool_zero_allocated_memory]"]
  from t h have a: "current (fst (AlignedMemoryPool_free (example_pool, example_fresh_world))) = 0
     \<and> AlignedMemoryPool_used (fst (AlignedMemoryPool_free (example_pool, example_fresh_world))) = 0
     \<and> fst (AlignedMemoryPool_allocate 1024 (AlignedMemoryPool_free (example_pool, example_fresh_world)))
         = Inr (mem example_segment)
     \<and> segment_base (hd (pools (fst (AlignedMemoryPool_free (example_pool, example_fresh_world)))))
         = Some (mem example_segment)"
    by blast
  from t c have b: "fst (AlignedMemoryPool_allocate 1024 (AlignedMemoryPool_free
        (AlignedMemoryPool_run [Pool_allocate 500, Pool_allocate 600, Pool_zero_allocated_memory]
           (example_fresh_pool, example_fresh_world)))) = Inr 4096"
    by blast
  have u: "AlignedMemoryPool_used example_pool = 512" "mem example_segment = 4096"
    by (simp_all add: AlignedMemoryPool_used_def example_pool_def example_segment_def)
  from a b u show ?thesis by simp
qed

theorem free_then_allocate_counterexample:
  "AlignedMemoryPool_ctor ''scratch'' 1024 device_allocator 1024 True example_world
     = (Inr example_dynamic_fresh, example_world\<lparr>next_oid := 3\<rparr>)
   \<and> fst (AlignedMemoryPool_allocate 16
        (AlignedMemoryPool_free (example_dynamic_fresh, example_world\<lparr>next_oid := 3\<rparr>))) = Inr 4096
   \<and> segment_base (hd (pools (fst
        (AlignedMemoryPool_free (example_dynamic_fresh, example_world\<lparr>next_oid := 3\<rparr>))))) = None
   \<and> segment_base (hd (pools (fst
        (AlignedMemoryPool_free (example_dynamic_fresh, example_world\<lparr>next_oid := 3\<rparr>))))) \<noteq> Some 4096"
  by (simp add: AlignedMemoryPool_ctor_def new_segment_def DynamicCPUMemoryPool_ctor_eq
      AlignedMemoryPool_free_eq AlignedMemoryPool_allocate_def DynamicCPUMemoryPool_allocate_cases
      example_dynamic_fresh_def example_dynamic_pool_def example_dynamic_segment_def
      example_world_def)

subsection \<open>Checkpoint and rewind\<close>









end
